theory Spec2Isabelle
  imports Complex_Main "HOL-Library.Word"
begin

section \<open>Decoded JSON values and the Python operations the driver applies to them\<close>

text \<open>
  The driver (\<^verbatim>\<open>libcloud/drivers/gogrid.py\<close>, Python 2) works on the values that
  \<^verbatim>\<open>json.loads\<close> returns: \<^verbatim>\<open>None\<close>, booleans, integers, floats, strings, lists and
  dicts with string keys. \<open>JNull\<close> is Python's \<^verbatim>\<open>None\<close>; it is also what \<^verbatim>\<open>dict.get\<close>
  returns for a missing key, so an absent field and a \<^verbatim>\<open>null\<close> field are the same value
  to the code. A dict is an association list read with \<open>map_of\<close>; its keys are meant to
  be distinct, as a dict's are. Floats are their exact values (the decoder's
  non-standard \<^verbatim>\<open>NaN\<close> and \<^verbatim>\<open>Infinity\<close> are not represented).
\<close>

datatype json =
    JNull
  | JBool bool
  | JInt int
  | JFloat real
  | JStr string
  | JArr "json list"
  | JObj "(string \<times> json) list"

text \<open>
  Every exception the driver raises or lets through is a value. \<open>InvalidCredsError\<close>,
  \<open>MalformedResponseError\<close> (message, body) and \<open>LibcloudError\<close> are the library's
  classes, \<open>Exception\<close> the generic one, the others Python's built-in lookup and type
  errors. None of \<open>KeyError\<close>, \<open>IndexError\<close>, \<open>TypeError\<close>, \<open>AttributeError\<close> is a
  subclass of \<open>ValueError\<close>.
\<close>

datatype error =
    InvalidCredsError string
  | MalformedResponseError string string
  | LibcloudError string
  | Exception string
  | ValueError
  | KeyError json
  | IndexError
  | TypeError
  | AttributeError

text \<open>Sequencing of two steps either of which may raise.\<close>

fun and_then :: "error + 'a \<Rightarrow> ('a \<Rightarrow> error + 'b) \<Rightarrow> error + 'b" where
  "and_then (Inl e) f = Inl e"
| "and_then (Inr x) f = f x"

text \<open>
  \<^verbatim>\<open>try: blk except E: handler\<close> where both return: the handler replaces exactly
  the exceptions that \<open>handles\<close> accepts, every other one propagates.
\<close>

definition try_except :: "error + 'a \<Rightarrow> (error \<Rightarrow> bool) \<Rightarrow> error + 'a \<Rightarrow> error + 'a" where
  "try_except blk handles handler =
     (case blk of Inl e \<Rightarrow> (if handles e then handler else Inl e) | Inr x \<Rightarrow> Inr x)"

fun is_ValueError :: "error \<Rightarrow> bool" where
  "is_ValueError ValueError = True"
| "is_ValueError _ = False"

fun is_KeyError :: "error \<Rightarrow> bool" where
  "is_KeyError (KeyError k) = True"
| "is_KeyError _ = False"

fun is_InvalidCredsError :: "error \<Rightarrow> bool" where
  "is_InvalidCredsError (InvalidCredsError m) = True"
| "is_InvalidCredsError _ = False"

text \<open>A list comprehension whose body may raise: the first exception ends it.\<close>

fun map_err :: "('a \<Rightarrow> error + 'b) \<Rightarrow> 'a list \<Rightarrow> error + 'b list" where
  "map_err f [] = Inr []"
| "map_err f (x # xs) =
     and_then (f x) (\<lambda>y. and_then (map_err f xs) (\<lambda>ys. Inr (y # ys)))"

text \<open>\<^verbatim>\<open>obj[k]\<close> for a string key \<open>k\<close>: only a dict can be subscripted by a string.\<close>

fun getitem_key :: "json \<Rightarrow> string \<Rightarrow> error + json" where
  "getitem_key (JObj kvs) k =
     (case map_of kvs k of Some v \<Rightarrow> Inr v | None \<Rightarrow> Inl (KeyError (JStr k)))"
| "getitem_key _ k = Inl TypeError"

text \<open>
  \<^verbatim>\<open>obj[0]\<close>: the first element of a list or string (\<^verbatim>\<open>IndexError\<close> when empty); a
  decoded dict has string keys only, so \<^verbatim>\<open>0\<close> is never one of them.
\<close>

fun getitem_0 :: "json \<Rightarrow> error + json" where
  "getitem_0 (JArr xs) = (case xs of [] \<Rightarrow> Inl IndexError | x # _ \<Rightarrow> Inr x)"
| "getitem_0 (JStr s) = (case s of [] \<Rightarrow> Inl IndexError | c # _ \<Rightarrow> Inr (JStr [c]))"
| "getitem_0 (JObj kvs) = Inl (KeyError (JInt 0))"
| "getitem_0 _ = Inl TypeError"

text \<open>\<^verbatim>\<open>obj.get(k)\<close>: only a dict has the method; a missing key gives \<^verbatim>\<open>None\<close>.\<close>

fun get_key :: "json \<Rightarrow> string \<Rightarrow> error + json" where
  "get_key (JObj kvs) k = Inr (case map_of kvs k of Some v \<Rightarrow> v | None \<Rightarrow> JNull)"
| "get_key _ k = Inl AttributeError"

text \<open>Truth value testing, as in \<^verbatim>\<open>if x:\<close>.\<close>

fun truthy :: "json \<Rightarrow> bool" where
  "truthy JNull = False"
| "truthy (JBool b) = b"
| "truthy (JInt i) = (i \<noteq> 0)"
| "truthy (JFloat r) = (r \<noteq> 0)"
| "truthy (JStr s) = (s \<noteq> [])"
| "truthy (JArr xs) = (xs \<noteq> [])"
| "truthy (JObj kvs) = (kvs \<noteq> [])"

text \<open>
  \<^verbatim>\<open>for x in obj\<close>: a list gives its elements, a string its characters, a dict its keys;
  anything else is not iterable.
\<close>

fun py_iter :: "json \<Rightarrow> error + json list" where
  "py_iter (JArr xs) = Inr xs"
| "py_iter (JStr s) = Inr (map (\<lambda>c. JStr [c]) s)"
| "py_iter (JObj kvs) = Inr (map (\<lambda>kv. JStr (fst kv)) kvs)"
| "py_iter _ = Inl TypeError"

text \<open>
  Python's \<^verbatim>\<open>==\<close> on decoded values. Booleans are integers (\<^verbatim>\<open>True == 1\<close>) and numbers
  compare by value (\<^verbatim>\<open>1 == 1.0\<close>); lists compare element by element, dicts key by key.
\<close>

fun num_val :: "json \<Rightarrow> real option" where
  "num_val (JBool b) = Some (if b then 1 else 0)"
| "num_val (JInt i) = Some (of_int i)"
| "num_val (JFloat r) = Some r"
| "num_val _ = None"

fun py_eq :: "json \<Rightarrow> json \<Rightarrow> bool" where
  "py_eq JNull b = (b = JNull)"
| "py_eq (JStr s) b = (b = JStr s)"
| "py_eq (JArr xs) b = (case b of JArr ys \<Rightarrow> list_all2 py_eq xs ys | _ \<Rightarrow> False)"
| "py_eq (JObj kvs) b =
     (case b of
        JObj kws \<Rightarrow>
          set (map fst kvs) = set (map fst kws) \<and>
          (\<forall>(k, v) \<in> set kvs. case map_of kws k of Some w \<Rightarrow> py_eq v w | None \<Rightarrow> False)
      | _ \<Rightarrow> False)"
| "py_eq a b = (case (num_val a, num_val b) of (Some x, Some y) \<Rightarrow> x = y | _ \<Rightarrow> False)"

text \<open>
  Dict keys: a key is hashed before it is stored or looked up, and lists and dicts are
  unhashable (\<^verbatim>\<open>TypeError\<close>). Equal values are the same key, so \<^verbatim>\<open>True\<close>, \<^verbatim>\<open>1\<close> and
  \<^verbatim>\<open>1.0\<close> are one key.
\<close>

datatype hkey = HNone | HNum real | HStr string

fun hash_key :: "json \<Rightarrow> error + hkey" where
  "hash_key JNull = Inr HNone"
| "hash_key (JBool b) = Inr (HNum (if b then 1 else 0))"
| "hash_key (JInt i) = Inr (HNum (of_int i))"
| "hash_key (JFloat r) = Inr (HNum r)"
| "hash_key (JStr s) = Inr (HStr s)"
| "hash_key (JArr xs) = Inl TypeError"
| "hash_key (JObj kvs) = Inl TypeError"

section \<open>The response classifier (class \<^verbatim>\<open>GoGridResponse\<close>)\<close>

text \<open>
  A response is its HTTP status and its body text. \<^verbatim>\<open>json.loads\<close> belongs to the
  standard library, so the decoder is a parameter \<open>loads\<close>: it returns the decoded
  value or the exception it raised, \<open>ValueError\<close> for a text that is not JSON (the empty
  text included).
\<close>

record response =
  status :: int
  body :: string

definition success :: "(string \<Rightarrow> error + json) \<Rightarrow> response \<Rightarrow> error + bool option" where
  "success loads r =
     (if status r = 403 then Inl (InvalidCredsError ''Invalid credentials'')
      else if status r = 401 then Inl (InvalidCredsError ''API Key has insufficient rights'')
      else if body r = [] then Inr None
      else try_except
             (and_then (loads (body r)) (\<lambda>j.
              and_then (getitem_key j ''status'') (\<lambda>s.
              Inr (Some (py_eq s (JStr ''success''))))))
             is_ValueError
             (Inl (MalformedResponseError ''Malformed reply'' (body r))))"

definition parse_body :: "(string \<Rightarrow> error + json) \<Rightarrow> response \<Rightarrow> error + json" where
  "parse_body loads r = (if body r = [] then Inr JNull else loads (body r))"

definition parse_error :: "(string \<Rightarrow> error + json) \<Rightarrow> response \<Rightarrow> error + json" where
  "parse_error loads r =
     try_except
       (and_then (loads (body r)) (\<lambda>j.
        and_then (getitem_key j ''list'') (\<lambda>l.
        and_then (getitem_0 l) (\<lambda>x.
        getitem_key x ''message''))))
       is_ValueError
       (Inr JNull)"

text \<open>
  The decoder's values on the body texts used in the examples below (single quotes
  stand for the double quotes of the wire format); every other text counts as not
  JSON.
\<close>

definition loads_examples :: "string \<Rightarrow> error + json" where
  "loads_examples s =
     (if s = ''{'status': 'success'}'' then Inr (JObj [(''status'', JStr ''success'')])
      else if s = ''{'status': 'failure'}'' then Inr (JObj [(''status'', JStr ''failure'')])
      else if s = ''{'list': [{'message': 'No such server'}]}''
        then Inr (JObj [(''list'', JArr [JObj [(''message'', JStr ''No such server'')]])])
      else if s = ''{'list': []}'' then Inr (JObj [(''list'', JArr [])])
      else if s = ''{}'' then Inr (JObj [])
      else if s = ''[]'' then Inr (JArr [])
      else Inl ValueError)"

section \<open>The signer (\<^verbatim>\<open>GoGridConnection.get_signature\<close>)\<close>

text \<open>
  \<^verbatim>\<open>hashlib.md5(key+secret+str(int(time.time()))).hexdigest()\<close>. The clock reading
  \<^verbatim>\<open>time.time()\<close> is a number of seconds with a fraction, and an argument here; \<^verbatim>\<open>int\<close>
  drops the fraction and \<^verbatim>\<open>str\<close> writes the integer in decimal. MD5 belongs to the
  standard library: the digest function is a parameter \<open>md5\<close>, whose value is the 128
  bits of the digest read as one big-endian number, and \<open>hexdigest\<close> writes them as 32
  lower-case hexadecimal digits.
\<close>

definition py_int :: "real \<Rightarrow> int" where
  "py_int x = (if 0 \<le> x then \<lfloor>x\<rfloor> else \<lceil>x\<rceil>)"

definition digit_char :: "nat \<Rightarrow> char" where
  "digit_char d = char_of (48 + d)"

fun digits :: "nat \<Rightarrow> string" where
  "digits n = (if n < 10 then [digit_char n] else digits (n div 10) @ [digit_char (n mod 10)])"

declare digits.simps [simp del]

definition str_int :: "int \<Rightarrow> string" where
  "str_int i = (if i < 0 then CHR ''-'' # digits (nat (- i)) else digits (nat i))"

definition hex_char :: "nat \<Rightarrow> char" where
  "hex_char d = (if d < 10 then char_of (48 + d) else char_of (87 + d))"

fun hex_digits :: "nat \<Rightarrow> nat \<Rightarrow> string" where
  "hex_digits 0 n = []"
| "hex_digits (Suc k) n = hex_digits k (n div 16) @ [hex_char (n mod 16)]"

definition hexdigest :: "128 word \<Rightarrow> string" where
  "hexdigest d = hex_digits 32 (unat d)"

definition get_signature :: "(string \<Rightarrow> 128 word) \<Rightarrow> string \<Rightarrow> string \<Rightarrow> real \<Rightarrow> string" where
  "get_signature md5 key secret now = hexdigest (md5 (key @ secret @ str_int (py_int now)))"

section \<open>The entity mapper (\<^verbatim>\<open>_get_state\<close>, \<^verbatim>\<open>_get_ip\<close>, \<^verbatim>\<open>_get_id\<close>, \<^verbatim>\<open>_to_node\<close>)\<close>

datatype NodeState = RUNNING | REBOOTING | TERMINATED | PENDING | UNKNOWN

definition STATE :: "(string \<times> NodeState) list" where
  "STATE =
     [(''Starting'', PENDING),
      (''On'', RUNNING),
      (''Off'', PENDING),
      (''Restarting'', REBOOTING),
      (''Saving'', PENDING),
      (''Restoring'', PENDING)]"

text \<open>\<^verbatim>\<open>STATE[k]\<close>: the key is hashed, then looked up; the table's keys are strings.\<close>

definition STATE_getitem :: "json \<Rightarrow> error + NodeState" where
  "STATE_getitem k =
     and_then (hash_key k) (\<lambda>h.
       case h of
         HStr s \<Rightarrow> (case map_of STATE s of Some st \<Rightarrow> Inr st | None \<Rightarrow> Inl (KeyError k))
       | _ \<Rightarrow> Inl (KeyError k))"

text \<open>The bare \<^verbatim>\<open>except:\<close> takes every exception of the lookup.\<close>

definition get_state :: "json \<Rightarrow> error + NodeState" where
  "get_state element =
     try_except
       (and_then (getitem_key element ''state'') (\<lambda>s.
        and_then (getitem_key s ''name'') STATE_getitem))
       (\<lambda>e. True)
       (Inr UNKNOWN)"

definition get_ip :: "json \<Rightarrow> error + json" where
  "get_ip element = and_then (get_key element ''ip'') (\<lambda>ip. get_key ip ''ip'')"

definition get_id :: "json \<Rightarrow> error + json" where
  "get_id element = get_key element ''id''"

text \<open>
  A node as the driver reads it back. The \<^verbatim>\<open>driver\<close> field is the same object on every
  node, and the \<^verbatim>\<open>uuid\<close> that the library's constructor stores is a digest of
  \<^verbatim>\<open>public_ip\<close> and the driver type; both are left out. \<open>node_id\<close> is the attribute
  \<^verbatim>\<open>id\<close>, \<open>JNull\<close> when it is \<^verbatim>\<open>None\<close>; \<open>extra\<close> is a dict.

  \<^verbatim>\<open>_to_node\<close> builds the node with the constructor of the library's class \<^verbatim>\<open>Node\<close>
  (\<^verbatim>\<open>libcloud.base\<close>, not among the driver's source files), and \<^verbatim>\<open>create_node\<close> later
  reads \<^verbatim>\<open>node.id\<close> back. What the constructor stores as \<^verbatim>\<open>id\<close> for the argument it is
  given is therefore a parameter \<open>init_id\<close> of \<open>to_node\<close> and of every operation that
  builds nodes; it need not be the argument itself. The constructor is taken to return
  for every argument, and to store the other arguments as they are given.
\<close>

record node =
  node_id :: json
  name :: json
  state :: NodeState
  public_ip :: "json list"
  private_ip :: "json list"
  extra :: "string \<rightharpoonup> json"

definition to_node :: "(json \<Rightarrow> json) \<Rightarrow> json \<Rightarrow> json \<Rightarrow> error + node" where
  "to_node init_id element password =
     and_then (get_state element) (\<lambda>st.
     and_then (get_ip element) (\<lambda>ip.
     and_then (get_id element) (\<lambda>i.
     and_then (getitem_key element ''name'') (\<lambda>nm.
     and_then (get_key element ''ram'') (\<lambda>ram.
     and_then (get_key ram ''name'') (\<lambda>ram_name.
     and_then (getitem_key element ''isSandbox'') (\<lambda>sandbox.
       let n = \<lparr>node_id = init_id i, name = nm, state = st, public_ip = [ip], private_ip = [],
                extra = [''ram'' \<mapsto> ram_name,
                         ''isSandbox'' \<mapsto> JBool (py_eq sandbox (JStr ''true''))]\<rparr>
       in Inr (if truthy password then n\<lparr>extra := (extra n)(''password'' \<mapsto> password)\<rparr>
               else n))))))))"

section \<open>The node lifecycle controller (class \<^verbatim>\<open>GoGridNodeDriver\<close>)\<close>

text \<open>
  \<^verbatim>\<open>self.connection.request(...).object\<close> is the library's transport: what a request
  yields, the parsed object or the exception raised on the way, is an argument of the
  operation that issues it. The request parameters (the optional datacenter of
  \<^verbatim>\<open>_get_first_ip\<close>, the fields of the provisioning call) only shape the request.
\<close>

definition get_first_ip :: "error + json \<Rightarrow> error + json" where
  "get_first_ip fetched =
     and_then fetched (\<lambda>object.
     and_then (getitem_key object ''list'') (\<lambda>l.
       if truthy l
       then and_then (getitem_key object ''list'') (\<lambda>l.
            and_then (getitem_0 l) (\<lambda>first.
            getitem_key first ''ip''))
       else Inl (LibcloudError ''No public unassigned IPs left'')))"

text \<open>
  \<^verbatim>\<open>passwords_map[password['server']['id']] = password['password']\<close>: the right-hand
  side is evaluated first, then the key, which is hashed when the entry is stored.
\<close>

definition store_password :: "(hkey \<rightharpoonup> json) \<Rightarrow> json \<Rightarrow> error + (hkey \<rightharpoonup> json)" where
  "store_password passwords_map password =
     and_then (getitem_key password ''password'') (\<lambda>v.
     and_then (getitem_key password ''server'') (\<lambda>server.
     and_then (getitem_key server ''id'') (\<lambda>k.
     and_then (hash_key k) (\<lambda>h.
     Inr (passwords_map(h \<mapsto> v))))))"

text \<open>
  The \<^verbatim>\<open>for\<close> loop over the password records; its body skips a record on \<open>KeyError\<close>.
  The dict is updated in place, so the loop yields the dict as it stands together with
  the exception that ended it, if one did.
\<close>

fun passwords_loop :: "(hkey \<rightharpoonup> json) \<Rightarrow> json list \<Rightarrow> (hkey \<rightharpoonup> json) \<times> error option" where
  "passwords_loop passwords_map [] = (passwords_map, None)"
| "passwords_loop passwords_map (password # rest) =
     (case try_except (store_password passwords_map password) is_KeyError (Inr passwords_map) of
        Inl e \<Rightarrow> (passwords_map, Some e)
      | Inr m \<Rightarrow> passwords_loop m rest)"

definition collect_passwords :: "error + json \<Rightarrow> (hkey \<rightharpoonup> json) \<times> error option" where
  "collect_passwords password_list =
     (case and_then password_list (\<lambda>object.
           and_then (getitem_key object ''list'') py_iter) of
        Inl e \<Rightarrow> (Map.empty, Some e)
      | Inr records \<Rightarrow> passwords_loop Map.empty records)"

text \<open>
  The returned comprehension: \<^verbatim>\<open>el.get('id')\<close>, then \<^verbatim>\<open>passwords_map.get\<close> of it (which
  hashes the key), then \<^verbatim>\<open>_to_node\<close>.
\<close>

definition nodes_of :: "(json \<Rightarrow> json) \<Rightarrow> json \<Rightarrow> (hkey \<rightharpoonup> json) \<Rightarrow> error + node list" where
  "nodes_of init_id res passwords_map =
     and_then (getitem_key res ''list'') (\<lambda>l.
     and_then (py_iter l) (map_err (\<lambda>el.
       and_then (get_key el ''id'') (\<lambda>i.
       and_then (hash_key i) (\<lambda>h.
       to_node init_id el (case passwords_map h of Some v \<Rightarrow> v | None \<Rightarrow> JNull))))))"

text \<open>
  \<open>list_nodes init_id server_list password_list\<close>: the last two arguments are what \<^verbatim>\<open>_server_list()\<close>
  and \<^verbatim>\<open>_password_list()\<close> yield. The outer handler takes \<open>InvalidCredsError\<close> only.
\<close>

definition list_nodes ::
  "(json \<Rightarrow> json) \<Rightarrow> error + json \<Rightarrow> error + json \<Rightarrow> error + node list" where
  "list_nodes init_id server_list password_list =
     and_then server_list (\<lambda>res.
       case collect_passwords password_list of
         (passwords_map, None) \<Rightarrow> nodes_of init_id res passwords_map
       | (passwords_map, Some e) \<Rightarrow>
           if is_InvalidCredsError e then nodes_of init_id res passwords_map else Inl e)"

text \<open>
  The keyword arguments that \<^verbatim>\<open>ex_create_node_nowait\<close> subscripts: each is given or
  not. \<open>ip_list\<close> and \<open>added\<close> are what the IP listing and the provisioning call yield.
\<close>

record kwargs =
  kw_name :: "json option"
  kw_image :: "json option"
  kw_size :: "json option"

definition ex_create_node_nowait ::
  "(json \<Rightarrow> json) \<Rightarrow> kwargs \<Rightarrow> error + json \<Rightarrow> error + json \<Rightarrow> error + node" where
  "ex_create_node_nowait init_id kw ip_list added =
     (case kw_name kw of None \<Rightarrow> Inl (KeyError (JStr ''name'')) | Some nm \<Rightarrow>
     (case kw_image kw of None \<Rightarrow> Inl (KeyError (JStr ''image'')) | Some img \<Rightarrow>
     (case kw_size kw of None \<Rightarrow> Inl (KeyError (JStr ''size'')) | Some sz \<Rightarrow>
        and_then (get_first_ip ip_list) (\<lambda>first_ip.
        and_then added (\<lambda>object.
        and_then (getitem_key object ''list'') (\<lambda>l.
        and_then (getitem_0 l) (\<lambda>el.
        to_node init_id el JNull)))))))"

definition timeout :: nat where
  "timeout = 60 * 20"

definition interval :: nat where
  "interval = 2 * 60"

text \<open>
  \<^verbatim>\<open>if id is None:\<close> after the loop of \<^verbatim>\<open>create_node\<close>. The method binds no variable
  \<^verbatim>\<open>id\<close>, so the name is Python's built-in function \<^verbatim>\<open>id\<close>, which is not \<^verbatim>\<open>None\<close>.
\<close>

definition builtin_id_is_None :: bool where
  "builtin_id_is_None = False"

text \<open>\<^verbatim>\<open>n.public_ip[0]\<close>.\<close>

definition first_public_ip :: "node \<Rightarrow> error + json" where
  "first_public_ip n = (case public_ip n of [] \<Rightarrow> Inl IndexError | a # _ \<Rightarrow> Inr a)"

text \<open>The inner \<^verbatim>\<open>for i in nodes\<close>: the first node that matches is returned.\<close>

fun scan_nodes :: "node \<Rightarrow> node list \<Rightarrow> error + node option" where
  "scan_nodes node [] = Inr None"
| "scan_nodes node (i # rest) =
     and_then (first_public_ip i) (\<lambda>a.
     and_then (first_public_ip node) (\<lambda>b.
       if py_eq a b \<and> node_id i \<noteq> JNull then Inr (Some i) else scan_nodes node rest))"

text \<open>
  The \<^verbatim>\<open>while\<close> loop and what follows it. \<open>polls n\<close> is what the two fetches of the
  \<open>n\<close>-th call of \<^verbatim>\<open>list_nodes\<close> yield; \<open>waittime\<close> is the time slept so far
  (\<^verbatim>\<open>time.sleep\<close> does nothing else). The result comes with the number of calls of
  \<^verbatim>\<open>list_nodes\<close> made.
\<close>

function wait_for_id ::
  "(json \<Rightarrow> json) \<Rightarrow> (nat \<Rightarrow> (error + json) \<times> (error + json)) \<Rightarrow> node \<Rightarrow> nat \<Rightarrow> nat
     \<Rightarrow> (error + node) \<times> nat" where
  "wait_for_id init_id polls node waittime n =
     (if node_id node = JNull \<and> waittime < timeout
      then (case and_then (list_nodes init_id (fst (polls n)) (snd (polls n))) (scan_nodes node) of
              Inl e \<Rightarrow> (Inl e, Suc n)
            | Inr (Some i) \<Rightarrow> (Inr i, Suc n)
            | Inr None \<Rightarrow> wait_for_id init_id polls node (waittime + interval) (Suc n))
      else if builtin_id_is_None
        then (Inl (Exception ''Wasn't able to wait for id allocation for the node''), n)
        else (Inr node, n))"
  by pat_completeness auto
termination
  by (relation "measure (\<lambda>(init_id, polls, node, waittime, n). timeout - waittime)")
    (auto simp: interval_def)

declare wait_for_id.simps [simp del]

definition create_node ::
  "(json \<Rightarrow> json) \<Rightarrow> kwargs \<Rightarrow> error + json \<Rightarrow> error + json
     \<Rightarrow> (nat \<Rightarrow> (error + json) \<times> (error + json)) \<Rightarrow> (error + node) \<times> nat" where
  "create_node init_id kw ip_list added polls =
     (case ex_create_node_nowait init_id kw ip_list added of
        Inl e \<Rightarrow> (Inl e, 0)
      | Inr node \<Rightarrow> wait_for_id init_id polls node 0 0)"

section \<open>Correlation of password records, and example records\<close>

text \<open>
  What a password record contributes, in the words of the specification: the server
  identifier and the password it carries, when it has both fields. The password
  correlated with an identifier is that of the last record whose server identifier
  equals it.
\<close>

definition password_entry :: "json \<Rightarrow> (json \<times> json) option" where
  "password_entry password =
     (case (getitem_key password ''password'',
            and_then (getitem_key password ''server'') (\<lambda>server. getitem_key server ''id'')) of
        (Inr v, Inr k) \<Rightarrow> Some (k, v)
      | _ \<Rightarrow> None)"

definition correlates :: "json \<Rightarrow> json \<Rightarrow> bool" where
  "correlates i password =
     (case password_entry password of Some (k, v) \<Rightarrow> py_eq k i | None \<Rightarrow> False)"

definition correlated_password :: "json list \<Rightarrow> json \<Rightarrow> json option" where
  "correlated_password records i =
     (case filter (correlates i) records of
        [] \<Rightarrow> None
      | ps \<Rightarrow> map_option snd (password_entry (last ps)))"

text \<open>Records of the shape the provider sends, for the examples.\<close>

definition example_server :: "json \<Rightarrow> string \<Rightarrow> string \<Rightarrow> json" where
  "example_server i nm ip =
     JObj [(''id'', i), (''name'', JStr nm), (''ip'', JObj [(''ip'', JStr ip)]),
           (''ram'', JObj [(''name'', JStr ''1GB'')]), (''isSandbox'', JStr ''false''),
           (''state'', JObj [(''name'', JStr ''On'')])]"

text \<open>
  The node that \<open>to_node\<close> makes of \<open>example_server raw nm ip\<close> and a password, where \<open>i\<close>
  is the identifier that the constructor stores for \<open>raw\<close>.
\<close>

definition example_node :: "json \<Rightarrow> string \<Rightarrow> string \<Rightarrow> json \<Rightarrow> node" where
  "example_node i nm ip pw =
     (let n = \<lparr>node_id = i, name = JStr nm, state = RUNNING, public_ip = [JStr ip],
               private_ip = [],
               extra = [''ram'' \<mapsto> JStr ''1GB'', ''isSandbox'' \<mapsto> JBool False]\<rparr>
      in if truthy pw then n\<lparr>extra := (extra n)(''password'' \<mapsto> pw)\<rparr> else n)"

definition example_password :: "json \<Rightarrow> string \<Rightarrow> json" where
  "example_password i pw = JObj [(''server'', JObj [(''id'', i)]), (''password'', JStr pw)]"

definition list_envelope :: "json list \<Rightarrow> json" where
  "list_envelope records = JObj [(''list'', JArr records)]"

text \<open>
  The match that \<^verbatim>\<open>create_node\<close> polls for, in the words of the specification: the
  record's first public address equals the created node's first public address, and the
  record's identifier is present. Both are read from the node that \<open>list_nodes\<close> built
  from the record, as the code reads \<^verbatim>\<open>i.public_ip[0]\<close> and \<^verbatim>\<open>i.id\<close>.
\<close>

definition matches :: "node \<Rightarrow> node \<Rightarrow> bool" where
  "matches node i =
     (case (public_ip i, public_ip node) of
        (a # _, b # _) \<Rightarrow> py_eq a b \<and> node_id i \<noteq> JNull
      | _ \<Rightarrow> False)"

text \<open>
  An instance of the constructor's parameter for the examples. The library stores
  \<^verbatim>\<open>str(id) if id else None\<close>: a false identifier (\<^verbatim>\<open>None\<close>, \<^verbatim>\<open>0\<close>, the empty string)
  becomes \<^verbatim>\<open>None\<close>, an integer its decimal string, a string stays. For a float, a list
  or a dict \<^verbatim>\<open>str\<close> gives Python's printed form, which the examples do not use and this
  instance does not compute: it leaves such an identifier as it is.
\<close>

definition init_id_examples :: "json \<Rightarrow> json" where
  "init_id_examples i =
     (if truthy i
      then (case i of
              JInt k \<Rightarrow> JStr (str_int k)
            | JBool b \<Rightarrow> JStr ''True''
            | other \<Rightarrow> other)
      else JNull)"

text \<open>Keyword arguments with name, image and size given.\<close>

definition example_kwargs :: kwargs where
  "example_kwargs =
     \<lparr>kw_name = Some (JStr ''web''), kw_image = Some (JInt 1531), kw_size = Some (JStr ''1GB'')\<rparr>"

text \<open>
  Two providers for the polls of \<^verbatim>\<open>create_node\<close>, after a provisioning call for the address
  192.0.2.10 that returned no identifier. The first lists the new server still without
  identifier at poll 0, and from poll 1 on with identifier 42, after another server.
  The second never issues the identifier.
\<close>

definition polls_resolving :: "nat \<Rightarrow> (error + json) \<times> (error + json)" where
  "polls_resolving n =
     (if n = 0
      then (Inr (list_envelope [example_server JNull ''web'' ''192.0.2.10'']),
            Inr (list_envelope []))
      else (Inr (list_envelope [example_server (JInt 7) ''db'' ''192.0.2.11'',
                                example_server (JInt 42) ''web'' ''192.0.2.10'']),
            Inr (list_envelope [example_password (JInt 42) ''s3cret''])))"

definition polls_pending :: "nat \<Rightarrow> (error + json) \<times> (error + json)" where
  "polls_pending n =
     (Inr (list_envelope [example_server (JInt 7) ''db'' ''192.0.2.11'',
                          example_server JNull ''web'' ''192.0.2.10'']),
      Inr (list_envelope []))"

text \<open>A third provider lists the new server with the identifier 0 at every poll.\<close>

definition polls_zero_id :: "nat \<Rightarrow> (error + json) \<times> (error + json)" where
  "polls_zero_id n =
     (Inr (list_envelope [example_server (JInt 0) ''web'' ''192.0.2.10'']),
      Inr (list_envelope []))"


section \<open>Properties of the response classifier\<close>

lemma py_eq_JStr_iff: "py_eq v (JStr s) = (v = JStr s)"
  by (cases v) auto

text \<open>
  C4. \<open>success\<close> classifies every response: status 403 raises the authentication error
  with the invalid-credentials message and status 401 the one with the
  insufficient-rights message, whatever the body; otherwise an empty body gives the
  no-success result \<^verbatim>\<open>None\<close> without raising, a non-empty body that the decoder rejects
  raises the malformed-response error carrying the body text, and for a decoded body the
  result is \<^verbatim>\<open>True\<close> exactly when its \<^verbatim>\<open>status\<close> field is the string \<^verbatim>\<open>success\<close>: a
  present field gives the truth value of that comparison, and without the field the
  lookup raises \<open>KeyError\<close>, so the result is not \<^verbatim>\<open>True\<close>.
\<close>

theorem success_classification:
  "(status r = 403 \<longrightarrow> success loads r = Inl (InvalidCredsError ''Invalid credentials'')) \<and>
   (status r = 401 \<longrightarrow>
      success loads r = Inl (InvalidCredsError ''API Key has insufficient rights'')) \<and>
   (status r \<noteq> 403 \<and> status r \<noteq> 401 \<longrightarrow>
      (body r = [] \<longrightarrow> success loads r = Inr None) \<and>
      (body r \<noteq> [] \<and> loads (body r) = Inl ValueError \<longrightarrow>
         success loads r = Inl (MalformedResponseError ''Malformed reply'' (body r))) \<and>
      (body r \<noteq> [] \<and> loads (body r) = Inr j \<longrightarrow>
         (success loads r = Inr (Some True)) = (getitem_key j ''status'' = Inr (JStr ''success'')) \<and>
         (\<forall>v. getitem_key j ''status'' = Inr v \<longrightarrow>
              success loads r = Inr (Some (v = JStr ''success'')))))"
  by (cases "getitem_key j ''status''") (auto simp: success_def try_except_def py_eq_JStr_iff)

theorem success_classification_witness:
  "success loads_examples \<lparr>status = 403, body = ''{'status': 'success'}''\<rparr>
     = Inl (InvalidCredsError ''Invalid credentials'') \<and>
   success loads_examples \<lparr>status = 401, body = []\<rparr>
     = Inl (InvalidCredsError ''API Key has insufficient rights'') \<and>
   success loads_examples \<lparr>status = 200, body = []\<rparr> = Inr None \<and>
   success loads_examples \<lparr>status = 200, body = ''<html>Bad gateway</html>''\<rparr>
     = Inl (MalformedResponseError ''Malformed reply'' ''<html>Bad gateway</html>'') \<and>
   success loads_examples \<lparr>status = 200, body = ''{'status': 'success'}''\<rparr> = Inr (Some True) \<and>
   success loads_examples \<lparr>status = 200, body = ''{'status': 'failure'}''\<rparr> = Inr (Some False)"
  using success_classification [of "\<lparr>status = 403, body = ''{'status': 'success'}''\<rparr>" loads_examples]
    success_classification [of "\<lparr>status = 401, body = []\<rparr>" loads_examples]
    success_classification [of "\<lparr>status = 200, body = []\<rparr>" loads_examples]
    success_classification [of "\<lparr>status = 200, body = ''<html>Bad gateway</html>''\<rparr>" loads_examples]
    success_classification [of "\<lparr>status = 200, body = ''{'status': 'success'}''\<rparr>" loads_examples
      "JObj [(''status'', JStr ''success'')]"]
    success_classification [of "\<lparr>status = 200, body = ''{'status': 'failure'}''\<rparr>" loads_examples
      "JObj [(''status'', JStr ''failure'')]"]
  by (simp add: loads_examples_def)

text \<open>
  C10. When the status is neither 401 nor 403 and the body is non-empty and decodes to
  an object that has no \<^verbatim>\<open>status\<close> field (a list envelope, for example), \<open>success\<close>
  raises the key-lookup error of the subscript: the handler takes \<open>ValueError\<close> only.
\<close>

theorem success_missing_status:
  "status r \<noteq> 403 \<Longrightarrow> status r \<noteq> 401 \<Longrightarrow> body r \<noteq> [] \<Longrightarrow>
   loads (body r) = Inr (JObj kvs) \<Longrightarrow> map_of kvs ''status'' = None \<Longrightarrow>
   success loads r = Inl (KeyError (JStr ''status''))"
  by (simp add: success_def try_except_def)

theorem success_missing_status_witness:
  "success loads_examples \<lparr>status = 200, body = ''{'list': []}''\<rparr> = Inl (KeyError (JStr ''status''))"
  using success_missing_status [of "\<lparr>status = 200, body = ''{'list': []}''\<rparr>" loads_examples
      "[(''list'', JArr [])]"]
  by (simp add: loads_examples_def)

text \<open>
  C3, as stated, fails: \<open>parse_error\<close> does raise. On a body that decodes to an object
  with an empty \<^verbatim>\<open>list\<close> the subscript \<^verbatim>\<open>[0]\<close> raises \<open>IndexError\<close>, and on an object
  without a \<^verbatim>\<open>list\<close> field the lookup raises \<open>KeyError\<close>; the handler lets both through.
\<close>

theorem parse_error_raises_counterexample:
  "parse_error loads_examples \<lparr>status = 200, body = ''{'list': []}''\<rparr> = Inl IndexError \<and>
   parse_error loads_examples \<lparr>status = 200, body = ''{}''\<rparr> = Inl (KeyError (JStr ''list''))"
  by (simp add: parse_error_def try_except_def loads_examples_def)

lemma getitem_key_not_ValueError: "getitem_key j k \<noteq> Inl ValueError"
  by (cases j) (auto split: option.splits)

lemma getitem_0_not_ValueError: "getitem_0 j \<noteq> Inl ValueError"
  by (cases j) (auto split: list.splits)

lemma message_lookup_not_ValueError:
  "and_then (getitem_key j ''list'') (\<lambda>l.
     and_then (getitem_0 l) (\<lambda>x. getitem_key x ''message'')) \<noteq> Inl ValueError"
proof (cases "getitem_key j ''list''")
  case (Inl e)
  with getitem_key_not_ValueError [of j "''list''"] show ?thesis by auto
next
  case l: (Inr l)
  show ?thesis
  proof (cases "getitem_0 l")
    case (Inl e)
    with l getitem_0_not_ValueError [of l] show ?thesis by auto
  next
    case (Inr x)
    with l getitem_key_not_ValueError [of x "''message''"] show ?thesis by simp
  qed
qed

text \<open>
  C3, amended. \<open>parse_error\<close> returns empty (\<^verbatim>\<open>None\<close>) when the decoder rejects the body
  with \<open>ValueError\<close>, and the first list entry's message when the body decodes to an
  object whose \<^verbatim>\<open>list\<close> starts with an object that has a \<^verbatim>\<open>message\<close> field. Only
  \<open>ValueError\<close> is caught. Every other exception propagates: any other exception of the
  decoder, and for a decoded body whatever the lookup \<^verbatim>\<open>['list'][0]['message']\<close> raises,
  which is \<open>KeyError\<close> for a missing \<^verbatim>\<open>list\<close> or \<^verbatim>\<open>message\<close> field, \<open>IndexError\<close> for an
  empty list and \<open>TypeError\<close> for a body that is not an object.
\<close>

theorem parse_error_cases:
  "(loads (body r) = Inl ValueError \<longrightarrow> parse_error loads r = Inr JNull) \<and>
   (loads (body r) = Inr (JObj kvs) \<longrightarrow>
      (map_of kvs ''list'' = None \<longrightarrow> parse_error loads r = Inl (KeyError (JStr ''list''))) \<and>
      (map_of kvs ''list'' = Some (JArr []) \<longrightarrow> parse_error loads r = Inl IndexError) \<and>
      (map_of kvs ''list'' = Some (JArr (JObj e # es)) \<longrightarrow>
         (map_of e ''message'' = None \<longrightarrow> parse_error loads r = Inl (KeyError (JStr ''message''))) \<and>
         (\<forall>m. map_of e ''message'' = Some m \<longrightarrow> parse_error loads r = Inr m))) \<and>
   (\<forall>x. loads (body r) = Inl x \<and> x \<noteq> ValueError \<longrightarrow> parse_error loads r = Inl x) \<and>
   (loads (body r) = Inr j \<longrightarrow>
      parse_error loads r =
        and_then (getitem_key j ''list'') (\<lambda>l.
        and_then (getitem_0 l) (\<lambda>x. getitem_key x ''message'')) \<and>
      (\<forall>x. and_then (getitem_key j ''list'') (\<lambda>l.
             and_then (getitem_0 l) (\<lambda>x. getitem_key x ''message'')) = Inl x \<longrightarrow>
           x \<noteq> ValueError \<and> parse_error loads r = Inl x)) \<and>
   (loads (body r) = Inr (JArr xs) \<longrightarrow> parse_error loads r = Inl TypeError)"
  (is "?rejected \<and> ?shapes \<and> ?decoder \<and> ?lookup \<and> ?array")
proof -
  have caught: "try_except blk is_ValueError h = blk" if "blk \<noteq> Inl ValueError"
    for blk h :: "error + json"
  proof (cases blk)
    case (Inl x)
    with that show ?thesis by (cases x) (simp_all add: try_except_def)
  next
    case (Inr m)
    then show ?thesis by (simp add: try_except_def)
  qed
  have ?rejected
    by (simp add: parse_error_def try_except_def)
  moreover have ?shapes
    by (simp add: parse_error_def try_except_def)
  moreover have ?decoder
  proof (intro allI impI)
    fix x
    assume "loads (body r) = Inl x \<and> x \<noteq> ValueError"
    then show "parse_error loads r = Inl x"
      by (simp add: parse_error_def caught)
  qed
  moreover have ?lookup
  proof (intro impI conjI allI)
    assume decoded: "loads (body r) = Inr j"
    then show eq: "parse_error loads r =
        and_then (getitem_key j ''list'') (\<lambda>l.
        and_then (getitem_0 l) (\<lambda>x. getitem_key x ''message''))"
      by (simp add: parse_error_def caught [OF message_lookup_not_ValueError])
    fix x
    assume raised: "and_then (getitem_key j ''list'') (\<lambda>l.
             and_then (getitem_0 l) (\<lambda>x. getitem_key x ''message'')) = Inl x"
    with message_lookup_not_ValueError [of j] show "x \<noteq> ValueError" by auto
    from eq raised show "parse_error loads r = Inl x" by simp
  qed
  moreover have ?array
    by (simp add: parse_error_def try_except_def)
  ultimately show ?thesis by blast
qed

theorem parse_error_cases_witness:
  "parse_error loads_examples \<lparr>status = 200, body = []\<rparr> = Inr JNull \<and>
   parse_error loads_examples \<lparr>status = 200, body = ''<html>Bad gateway</html>''\<rparr> = Inr JNull \<and>
   parse_error loads_examples \<lparr>status = 200, body = ''{'status': 'failure'}''\<rparr>
     = Inl (KeyError (JStr ''list'')) \<and>
   parse_error loads_examples \<lparr>status = 200, body = ''{'list': [{'message': 'No such server'}]}''\<rparr>
     = Inr (JStr ''No such server'') \<and>
   parse_error loads_examples \<lparr>status = 200, body = ''[]''\<rparr> = Inl TypeError \<and>
   parse_error (\<lambda>s. Inl AttributeError) \<lparr>status = 200, body = ''{}''\<rparr> = Inl AttributeError"
  using parse_error_cases [of loads_examples "\<lparr>status = 200, body = []\<rparr>"]
    parse_error_cases [of loads_examples "\<lparr>status = 200, body = ''<html>Bad gateway</html>''\<rparr>"]
    parse_error_cases [of loads_examples "\<lparr>status = 200, body = ''{'status': 'failure'}''\<rparr>"
      "[(''status'', JStr ''failure'')]"]
    parse_error_cases [of loads_examples
      "\<lparr>status = 200, body = ''{'list': [{'message': 'No such server'}]}''\<rparr>"
      "[(''list'', JArr [JObj [(''message'', JStr ''No such server'')]])]"
      "[(''message'', JStr ''No such server'')]" "[]"]
    parse_error_cases [of loads_examples "\<lparr>status = 200, body = ''[]''\<rparr>" _ _ _ _ "[]"]
    parse_error_cases [of "\<lambda>s. Inl AttributeError" "\<lparr>status = 200, body = ''{}''\<rparr>"]
  by (simp add: loads_examples_def)

section \<open>Properties of the signer\<close>

lemma py_int_of_int: "py_int (of_int t) = t"
  by (simp add: py_int_def)

lemma digit_char_inj: "a < 10 \<Longrightarrow> b < 10 \<Longrightarrow> digit_char a = digit_char b \<Longrightarrow> a = b"
  by (simp add: digit_char_def)

lemma digits_not_Nil: "digits n \<noteq> []"
  by (subst digits.simps) simp

lemma digits_inj: "digits a = digits b \<Longrightarrow> a = b"
proof (induction a arbitrary: b rule: digits.induct)
  case (1 a)
  show ?case
  proof (cases "a < 10")
    case small_a: True
    show ?thesis
    proof (cases "b < 10")
      case True
      with small_a "1.prems" show ?thesis
        by (simp add: digits.simps [of a] digits.simps [of b] digit_char_inj)
    next
      case False
      with small_a "1.prems" digits_not_Nil [of "b div 10"] show ?thesis
        by (simp add: digits.simps [of a] digits.simps [of b])
    qed
  next
    case big_a: False
    show ?thesis
    proof (cases "b < 10")
      case True
      with big_a "1.prems" digits_not_Nil [of "a div 10"] show ?thesis
        by (simp add: digits.simps [of a] digits.simps [of b])
    next
      case False
      with big_a "1.prems"
      have front: "digits (a div 10) = digits (b div 10)"
        and lastd: "digit_char (a mod 10) = digit_char (b mod 10)"
        by (simp_all add: digits.simps [of a] digits.simps [of b])
      from "1.IH" [OF big_a front] have "a div 10 = b div 10" .
      moreover from lastd have "a mod 10 = b mod 10"
        by (intro digit_char_inj) simp_all
      ultimately show ?thesis
        by (metis div_mult_mod_eq)
    qed
  qed
qed

lemma digit_char_not_minus: "d < 10 \<Longrightarrow> digit_char d \<noteq> CHR ''-''"
  by (auto simp: digit_char_def char_of_eq_iff take_bit_eq_mod)

lemma digits_no_minus: "CHR ''-'' \<notin> set (digits n)"
proof (induction n rule: digits.induct)
  case (1 n)
  show ?case
  proof (cases "n < 10")
    case True
    then have "digits n = [digit_char n]" by (subst digits.simps) simp
    with True digit_char_not_minus [of n] show ?thesis by auto
  next
    case False
    then have "digits n = digits (n div 10) @ [digit_char (n mod 10)]"
      by (subst digits.simps) simp
    moreover from False have "CHR ''-'' \<notin> set (digits (n div 10))" by (rule 1)
    moreover have "digit_char (n mod 10) \<noteq> CHR ''-''" by (rule digit_char_not_minus) simp
    ultimately show ?thesis by auto
  qed
qed

lemma str_int_inj: "str_int a = str_int b \<Longrightarrow> a = b"
proof -
  assume eq: "str_int a = str_int b"
  have no_minus: "digits n \<noteq> CHR ''-'' # s \<and> CHR ''-'' # s \<noteq> digits n" for n s
    using digits_no_minus [of n] by (metis list.set_intros(1))
  show "a = b"
  proof (cases "a < 0"; cases "b < 0")
    assume "a < 0" "b < 0"
    with eq have "digits (nat (- a)) = digits (nat (- b))" by (simp add: str_int_def)
    then have "nat (- a) = nat (- b)" by (rule digits_inj)
    with \<open>a < 0\<close> \<open>b < 0\<close> show ?thesis by simp
  next
    assume "a < 0" "\<not> b < 0"
    with eq no_minus [of "nat b"] show ?thesis by (auto simp: str_int_def)
  next
    assume "\<not> a < 0" "b < 0"
    with eq no_minus [of "nat a"] show ?thesis by (auto simp: str_int_def)
  next
    assume "\<not> a < 0" "\<not> b < 0"
    with eq have "digits (nat a) = digits (nat b)" by (simp add: str_int_def)
    then have "nat a = nat b" by (rule digits_inj)
    with \<open>\<not> a < 0\<close> \<open>\<not> b < 0\<close> show ?thesis by simp
  qed
qed

lemma hex_char_inj: "a < 16 \<Longrightarrow> b < 16 \<Longrightarrow> hex_char a = hex_char b \<Longrightarrow> a = b"
  by (auto simp: hex_char_def split: if_splits)

lemma length_hex_digits: "length (hex_digits k n) = k"
  by (induction k arbitrary: n) simp_all

lemma hex_digits_inj: "hex_digits k a = hex_digits k b \<Longrightarrow> a mod 16 ^ k = b mod 16 ^ k"
proof (induction k arbitrary: a b)
  case 0
  show ?case by simp
next
  case (Suc k)
  from Suc.prems have front: "hex_digits k (a div 16) = hex_digits k (b div 16)"
    and lastd: "hex_char (a mod 16) = hex_char (b mod 16)"
    by simp_all
  from Suc.IH [OF front] have hi: "a div 16 mod 16 ^ k = b div 16 mod 16 ^ k" .
  from lastd have lo: "a mod 16 = b mod 16"
    by (intro hex_char_inj) simp_all
  have "x mod 16 ^ Suc k = 16 * (x div 16 mod 16 ^ k) + x mod 16" for x :: nat
    by (simp add: mod_mult2_eq)
  with hi lo show ?case by presburger
qed

lemma hexdigest_inj: "hexdigest x = hexdigest y \<Longrightarrow> x = y"
proof -
  assume "hexdigest x = hexdigest y"
  then have "unat x mod 16 ^ 32 = unat y mod 16 ^ 32"
    unfolding hexdigest_def by (rule hex_digits_inj)
  moreover have "unat w < 16 ^ 32" for w :: "128 word"
    using unsigned_less [of w, where ?'a = nat] by simp
  ultimately have "unat x = unat y" by simp
  then show "x = y" by (simp add: word_unat_eq_iff)
qed

lemma str_int_example: "str_int 1257894000 = ''1257894000''" "str_int 1257894001 = ''1257894001''"
  by (simp_all add: str_int_def digits.simps digit_char_def char_of_def bit_Suc_0_iff)

text \<open>
  What holds of the signature for every digest function. It is the hexadecimal digest of
  identifier, secret and the decimal string of the clock reading cut to whole seconds,
  one after the other, so it is a function of that triple. Readings in different whole
  seconds are digested as different texts, and two signatures are equal exactly when
  the two digests are. Whether the digests of two different texts differ is a property
  of MD5 itself, which is not part of the driver.
\<close>

lemma get_signature_digest:
  "get_signature md5 key secret now = hexdigest (md5 (key @ secret @ str_int (py_int now))) \<and>
   (py_int now = py_int now' \<longrightarrow>
      get_signature md5 key secret now = get_signature md5 key secret now') \<and>
   (py_int now \<noteq> py_int now' \<longrightarrow>
      key @ secret @ str_int (py_int now) \<noteq> key @ secret @ str_int (py_int now')) \<and>
   (get_signature md5 key secret now = get_signature md5 key secret now') =
     (md5 (key @ secret @ str_int (py_int now)) = md5 (key @ secret @ str_int (py_int now')))"
proof (intro conjI impI)
  show "get_signature md5 key secret now = hexdigest (md5 (key @ secret @ str_int (py_int now)))"
    by (simp add: get_signature_def)
next
  assume "py_int now = py_int now'"
  then show "get_signature md5 key secret now = get_signature md5 key secret now'"
    by (simp add: get_signature_def)
next
  assume "py_int now \<noteq> py_int now'"
  then show "key @ secret @ str_int (py_int now) \<noteq> key @ secret @ str_int (py_int now')"
    using str_int_inj by auto
next
  show "(get_signature md5 key secret now = get_signature md5 key secret now') =
     (md5 (key @ secret @ str_int (py_int now)) = md5 (key @ secret @ str_int (py_int now')))"
    using hexdigest_inj by (auto simp: get_signature_def)
qed

lemma get_signature_example:
  "get_signature md5 ''user'' ''secret'' 1257894000 = hexdigest (md5 ''usersecret1257894000'')"
  by (simp add: get_signature_def py_int_def str_int_example)

section \<open>Properties of the entity mapper\<close>

lemma STATE_getitem_JStr:
  "STATE_getitem (JStr n) =
     (if n \<in> {''Starting'', ''Off'', ''Saving'', ''Restoring''} then Inr PENDING
      else if n = ''On'' then Inr RUNNING
      else if n = ''Restarting'' then Inr REBOOTING
      else Inl (KeyError (JStr n)))"
  by (simp add: STATE_getitem_def STATE_def)

lemma STATE_getitem_other:
  "\<forall>n. k \<noteq> JStr n \<Longrightarrow> STATE_getitem k = Inl TypeError \<or> STATE_getitem k = Inl (KeyError k)"
  by (cases k) (simp_all add: STATE_getitem_def)

text \<open>
  C5. The state mapper never raises: it always returns a state. For a record whose
  \<^verbatim>\<open>state\<close> structure carries the name \<open>n\<close> it returns \<open>PENDING\<close> for \<^verbatim>\<open>Starting\<close>, \<^verbatim>\<open>Off\<close>,
  \<^verbatim>\<open>Saving\<close> and \<^verbatim>\<open>Restoring\<close>, \<open>RUNNING\<close> for \<^verbatim>\<open>On\<close>, \<open>REBOOTING\<close> for \<^verbatim>\<open>Restarting\<close> and
  \<open>UNKNOWN\<close> for any other name; when the structure or a string name is missing it
  returns \<open>UNKNOWN\<close>.
\<close>

theorem get_state_table:
  "(\<exists>st. get_state element = Inr st) \<and>
   (getitem_key element ''state'' = Inr s \<and> getitem_key s ''name'' = Inr (JStr n) \<longrightarrow>
      get_state element =
        Inr (if n \<in> {''Starting'', ''Off'', ''Saving'', ''Restoring''} then PENDING
             else if n = ''On'' then RUNNING
             else if n = ''Restarting'' then REBOOTING
             else UNKNOWN)) \<and>
   ((\<forall>s n. \<not> (getitem_key element ''state'' = Inr s \<and> getitem_key s ''name'' = Inr (JStr n))) \<longrightarrow>
      get_state element = Inr UNKNOWN)"
proof (intro conjI impI)
  show "\<exists>st. get_state element = Inr st"
    by (simp add: get_state_def try_except_def split: sum.split)
next
  assume "getitem_key element ''state'' = Inr s \<and> getitem_key s ''name'' = Inr (JStr n)"
  then show "get_state element =
        Inr (if n \<in> {''Starting'', ''Off'', ''Saving'', ''Restoring''} then PENDING
             else if n = ''On'' then RUNNING
             else if n = ''Restarting'' then REBOOTING
             else UNKNOWN)"
    by (simp add: get_state_def try_except_def STATE_getitem_JStr)
next
  assume none: "\<forall>s n. \<not> (getitem_key element ''state'' = Inr s \<and> getitem_key s ''name'' = Inr (JStr n))"
  show "get_state element = Inr UNKNOWN"
  proof (cases "getitem_key element ''state''")
    case (Inl e)
    then show ?thesis by (simp add: get_state_def try_except_def)
  next
    case st: (Inr s)
    show ?thesis
    proof (cases "getitem_key s ''name''")
      case (Inl e)
      with st show ?thesis by (simp add: get_state_def try_except_def)
    next
      case (Inr k)
      with st none have "\<forall>n. k \<noteq> JStr n" by auto
      from STATE_getitem_other [OF this] st Inr show ?thesis
        by (auto simp: get_state_def try_except_def)
    qed
  qed
qed

theorem get_state_table_witness:
  "get_state (JObj [(''id'', JInt 7), (''state'', JObj [(''name'', JStr ''Starting'')])]) = Inr PENDING \<and>
   get_state (JObj [(''state'', JObj [(''name'', JStr ''On'')])]) = Inr RUNNING \<and>
   get_state (JObj [(''state'', JObj [(''name'', JStr ''Off'')])]) = Inr PENDING \<and>
   get_state (JObj [(''state'', JObj [(''name'', JStr ''Restarting'')])]) = Inr REBOOTING \<and>
   get_state (JObj [(''state'', JObj [(''name'', JStr ''Saving'')])]) = Inr PENDING \<and>
   get_state (JObj [(''state'', JObj [(''name'', JStr ''Restoring'')])]) = Inr PENDING \<and>
   get_state (JObj [(''state'', JObj [(''name'', JStr ''Exploded'')])]) = Inr UNKNOWN \<and>
   get_state (JObj [(''id'', JInt 7)]) = Inr UNKNOWN \<and>
   get_state (JObj [(''state'', JObj [(''name'', JArr [])])]) = Inr UNKNOWN \<and>
   get_state JNull = Inr UNKNOWN"
  using
    get_state_table [of "JObj [(''id'', JInt 7), (''state'', JObj [(''name'', JStr ''Starting'')])]"
      "JObj [(''name'', JStr ''Starting'')]" "''Starting''"]
    get_state_table [of "JObj [(''state'', JObj [(''name'', JStr ''On'')])]"
      "JObj [(''name'', JStr ''On'')]" "''On''"]
    get_state_table [of "JObj [(''state'', JObj [(''name'', JStr ''Off'')])]"
      "JObj [(''name'', JStr ''Off'')]" "''Off''"]
    get_state_table [of "JObj [(''state'', JObj [(''name'', JStr ''Restarting'')])]"
      "JObj [(''name'', JStr ''Restarting'')]" "''Restarting''"]
    get_state_table [of "JObj [(''state'', JObj [(''name'', JStr ''Saving'')])]"
      "JObj [(''name'', JStr ''Saving'')]" "''Saving''"]
    get_state_table [of "JObj [(''state'', JObj [(''name'', JStr ''Restoring'')])]"
      "JObj [(''name'', JStr ''Restoring'')]" "''Restoring''"]
    get_state_table [of "JObj [(''state'', JObj [(''name'', JStr ''Exploded'')])]"
      "JObj [(''name'', JStr ''Exploded'')]" "''Exploded''"]
    get_state_table [of "JObj [(''id'', JInt 7)]"]
    get_state_table [of "JObj [(''state'', JObj [(''name'', JArr [])])]"]
    get_state_table [of JNull]
  by simp

section \<open>Properties of the controller\<close>

text \<open>
  C8. When the listing of unassigned IPs holds a non-empty list, the allocation returns
  the \<^verbatim>\<open>ip\<close> field of the first entry (the result of that subscript); when the list is
  empty it raises the error that no public unassigned IP is left.
\<close>

theorem get_first_ip_cases:
  "(getitem_key object ''list'' = Inr (JArr (first # rest)) \<longrightarrow>
      get_first_ip (Inr object) = getitem_key first ''ip'') \<and>
   (getitem_key object ''list'' = Inr (JArr (JObj kvs # rest)) \<and> map_of kvs ''ip'' = Some ip \<longrightarrow>
      get_first_ip (Inr object) = Inr ip) \<and>
   (getitem_key object ''list'' = Inr (JArr []) \<longrightarrow>
      get_first_ip (Inr object) = Inl (LibcloudError ''No public unassigned IPs left''))"
  by (simp add: get_first_ip_def)

theorem get_first_ip_cases_witness:
  "get_first_ip (Inr (JObj [(''list'', JArr [JObj [(''id'', JInt 1), (''ip'', JStr ''192.0.2.10'')],
                                             JObj [(''id'', JInt 2), (''ip'', JStr ''192.0.2.11'')]])]))
     = Inr (JStr ''192.0.2.10'') \<and>
   get_first_ip (Inr (JObj [(''list'', JArr [])])) = Inl (LibcloudError ''No public unassigned IPs left'')"
  using
    get_first_ip_cases [of "JObj [(''list'', JArr [JObj [(''id'', JInt 1), (''ip'', JStr ''192.0.2.10'')],
                                             JObj [(''id'', JInt 2), (''ip'', JStr ''192.0.2.11'')]])]"
      "JObj [(''id'', JInt 1), (''ip'', JStr ''192.0.2.10'')]"
      "[JObj [(''id'', JInt 2), (''ip'', JStr ''192.0.2.11'')]]"
      "[(''id'', JInt 1), (''ip'', JStr ''192.0.2.10'')]" "JStr ''192.0.2.10''"]
    get_first_ip_cases [of "JObj [(''list'', JArr [])]"]
  by simp

subsection \<open>Listing nodes\<close>

lemma map_err_Inr_iff: "(map_err f xs = Inr ys) = list_all2 (\<lambda>x y. f x = Inr y) xs ys"
proof (induction xs arbitrary: ys)
  case Nil
  show ?case by auto
next
  case (Cons x xs)
  show ?case
  proof (cases "f x")
    case (Inl e)
    then show ?thesis by (auto simp: list_all2_Cons1)
  next
    case fx: (Inr y)
    show ?thesis
    proof (cases "map_err f xs")
      case (Inl e)
      with fx Cons.IH show ?thesis by (auto simp: list_all2_Cons1)
    next
      case (Inr zs)
      with fx Cons.IH [of zs] Cons.IH show ?thesis
        by (auto simp: list_all2_Cons1)
    qed
  qed
qed

lemma and_then_Inr_iff: "(and_then m f = Inr y) = (\<exists>x. m = Inr x \<and> f x = Inr y)"
  by (cases m) auto

lemma to_node_Inr:
  assumes "to_node init_id element password = Inr n"
  shows "\<exists>i. get_id element = Inr i \<and> node_id n = init_id i"
    and "\<exists>ip. get_ip element = Inr ip \<and> public_ip n = [ip]"
    and "extra n ''password'' = (if truthy password then Some password else None)"
proof -
  from assms obtain st ip i nm ram_name sandbox where
    parts: "get_ip element = Inr ip" "get_id element = Inr i"
    and n: "n = (let n0 = \<lparr>node_id = init_id i, name = nm, state = st, public_ip = [ip],
                private_ip = [],
                extra = [''ram'' \<mapsto> ram_name,
                         ''isSandbox'' \<mapsto> JBool (py_eq sandbox (JStr ''true''))]\<rparr>
       in (if truthy password then n0\<lparr>extra := (extra n0)(''password'' \<mapsto> password)\<rparr>
               else n0))"
    unfolding to_node_def and_then_Inr_iff by (metis Inr_inject)
  from parts n show "\<exists>i. get_id element = Inr i \<and> node_id n = init_id i"
    by (simp add: Let_def)
  from parts n show "\<exists>ip. get_ip element = Inr ip \<and> public_ip n = [ip]"
    by (simp add: Let_def)
  from n show "extra n ''password'' = (if truthy password then Some password else None)"
    by (simp add: Let_def)
qed

lemma and_then_Inl_iff:
  "(and_then m f = Inl e) = (m = Inl e \<or> (\<exists>x. m = Inr x \<and> f x = Inl e))"
  by (cases m) auto

lemma getitem_key_error: "getitem_key j k = Inl e \<Longrightarrow> e = TypeError \<or> e = KeyError (JStr k)"
  by (cases j) (auto split: option.splits)

lemma get_key_error: "get_key j k = Inl e \<Longrightarrow> e = AttributeError"
  by (cases j) auto

lemma hash_key_error: "hash_key j = Inl e \<Longrightarrow> e = TypeError"
  by (cases j) auto

lemma py_iter_error: "py_iter j = Inl e \<Longrightarrow> e = TypeError"
  by (cases j) auto

lemma get_state_Inr: "\<exists>st. get_state element = Inr st"
  by (simp add: get_state_def try_except_def split: sum.split)

lemma to_node_error:
  "to_node init_id element password = Inl e \<Longrightarrow> \<not> is_InvalidCredsError e"
  using get_state_Inr [of element]
  by (auto simp: to_node_def get_ip_def get_id_def and_then_Inl_iff Let_def
      dest!: getitem_key_error get_key_error)

lemma map_err_Inl: "map_err f xs = Inl e \<Longrightarrow> \<exists>x \<in> set xs. f x = Inl e"
  by (induction xs) (auto simp: and_then_Inl_iff)

lemma nodes_of_error: "nodes_of init_id res passwords_map = Inl e \<Longrightarrow> \<not> is_InvalidCredsError e"
proof
  assume err: "nodes_of init_id res passwords_map = Inl e" and auth: "is_InvalidCredsError e"
  from err consider "getitem_key res ''list'' = Inl e"
    | l where "py_iter l = Inl e"
    | els where "map_err (\<lambda>el.
       and_then (get_key el ''id'') (\<lambda>i.
       and_then (hash_key i) (\<lambda>h.
       to_node init_id el (case passwords_map h of Some v \<Rightarrow> v | None \<Rightarrow> JNull)))) els = Inl e"
    by (auto simp: nodes_of_def and_then_Inl_iff)
  then show False
  proof cases
    case 1
    with auth show False by (auto dest: getitem_key_error)
  next
    case 2
    with auth show False by (auto dest: py_iter_error)
  next
    case 3
    from map_err_Inl [OF 3] auth show False
      by (auto simp: and_then_Inl_iff dest: get_key_error hash_key_error to_node_error)
  qed
qed

lemma nodes_of_Inr_iff:
  "(nodes_of init_id res passwords_map = Inr ns) =
     (\<exists>els. and_then (getitem_key res ''list'') py_iter = Inr els \<and>
        list_all2 (\<lambda>el n. \<exists>h. and_then (get_id el) hash_key = Inr h \<and>
            to_node init_id el (case passwords_map h of Some v \<Rightarrow> v | None \<Rightarrow> JNull) = Inr n) els ns)"
proof -
  have inner: "(and_then (get_key el ''id'') (\<lambda>i. and_then (hash_key i) (\<lambda>h.
        to_node init_id el (case passwords_map h of Some v \<Rightarrow> v | None \<Rightarrow> JNull))) = Inr n) =
      (\<exists>h. and_then (get_id el) hash_key = Inr h \<and>
            to_node init_id el (case passwords_map h of Some v \<Rightarrow> v | None \<Rightarrow> JNull) = Inr n)" for el n
    by (cases "get_key el ''id''") (auto simp: get_id_def and_then_Inr_iff)
  show ?thesis
  proof (cases "getitem_key res ''list''")
    case (Inl e)
    then show ?thesis by (simp add: nodes_of_def)
  next
    case l: (Inr l)
    show ?thesis
    proof (cases "py_iter l")
      case (Inl e)
      with l show ?thesis by (simp add: nodes_of_def)
    next
      case (Inr els)
      with l show ?thesis by (simp add: nodes_of_def map_err_Inr_iff inner)
    qed
  qed
qed

lemma list_all2_right:
  "list_all2 P xs ys \<Longrightarrow> y \<in> set ys \<Longrightarrow> \<exists>x \<in> set xs. P x y"
  by (induction rule: list_all2_induct) auto

lemma list_nodes_denied: "list_nodes init_id (Inr res) (Inl (InvalidCredsError msg)) = nodes_of init_id res Map.empty"
  by (simp add: list_nodes_def collect_passwords_def)

lemma example_server_node:
  "to_node init_id (example_server i nm ip) pw = Inr (example_node (init_id i) nm ip pw)"
  by (simp add: to_node_def example_server_def example_node_def get_state_def try_except_def
      get_ip_def get_id_def STATE_getitem_def STATE_def Let_def)

lemma example_server_id: "get_key (example_server i nm ip) ''id'' = Inr i"
  by (simp add: example_server_def)

lemma init_id_examples_values:
  "init_id_examples JNull = JNull"
  "init_id_examples (JInt 0) = JNull"
  "init_id_examples (JInt 1) = JStr ''1''"
  "init_id_examples (JInt 2) = JStr ''2''"
  "init_id_examples (JInt 7) = JStr ''7''"
  "init_id_examples (JInt 42) = JStr ''42''"
  by (simp_all add: init_id_examples_def str_int_def digits.simps digit_char_def char_of_def
      bit_Suc_0_iff)

lemma example_node_fields:
  "node_id (example_node i nm ip pw) = i"
  "public_ip (example_node i nm ip pw) = [JStr ip]"
  "extra (example_node i nm ip pw) ''password'' = (if truthy pw then Some pw else None)"
  by (simp_all add: example_node_def Let_def)

text \<open>
  C6. When the server list is fetched and the fetch of the password list raises the
  authentication error, \<open>list_nodes\<close> does not pass that error on: it returns the nodes
  mapped from the server records, each mapped with no password (it returns exactly when
  every record maps and has a hashable identifier), and no returned node has a
  password attached.
\<close>

theorem list_nodes_password_fetch_denied:
  "((list_nodes init_id (Inr res) (Inl (InvalidCredsError msg)) = Inr ns) =
      (\<exists>els. and_then (getitem_key res ''list'') py_iter = Inr els \<and>
         list_all2 (\<lambda>el n. (\<exists>h. and_then (get_id el) hash_key = Inr h) \<and>
            to_node init_id el JNull = Inr n) els ns)) \<and>
   (list_nodes init_id (Inr res) (Inl (InvalidCredsError msg)) = Inr ns \<longrightarrow>
      (\<forall>n \<in> set ns. extra n ''password'' = None)) \<and>
   (\<forall>m. list_nodes init_id (Inr res) (Inl (InvalidCredsError msg)) \<noteq> Inl (InvalidCredsError m))"
proof (intro conjI impI allI)
  show "(list_nodes init_id (Inr res) (Inl (InvalidCredsError msg)) = Inr ns) =
      (\<exists>els. and_then (getitem_key res ''list'') py_iter = Inr els \<and>
         list_all2 (\<lambda>el n. (\<exists>h. and_then (get_id el) hash_key = Inr h) \<and>
            to_node init_id el JNull = Inr n) els ns)"
    by (simp add: list_nodes_denied nodes_of_Inr_iff)
next
  assume "list_nodes init_id (Inr res) (Inl (InvalidCredsError msg)) = Inr ns"
  then obtain els where
    "list_all2 (\<lambda>el n. \<exists>h. and_then (get_id el) hash_key = Inr h \<and> to_node init_id el JNull = Inr n) els ns"
    by (auto simp: list_nodes_denied nodes_of_Inr_iff)
  then have mapped: "\<forall>n \<in> set ns. \<exists>el. to_node init_id el JNull = Inr n"
    by (blast dest: list_all2_right)
  show "\<forall>n \<in> set ns. extra n ''password'' = None"
  proof
    fix n
    assume "n \<in> set ns"
    with mapped obtain el where "to_node init_id el JNull = Inr n" by blast
    from to_node_Inr(3) [OF this] show "extra n ''password'' = None" by simp
  qed
next
  fix m
  show "list_nodes init_id (Inr res) (Inl (InvalidCredsError msg)) \<noteq> Inl (InvalidCredsError m)"
    using nodes_of_error [of init_id res Map.empty "InvalidCredsError m"]
    by (auto simp: list_nodes_denied)
qed

theorem list_nodes_password_fetch_denied_witness:
  "list_nodes init_id_examples
     (Inr (list_envelope [example_server (JInt 1) ''web'' ''192.0.2.10'',
                          example_server (JInt 2) ''db'' ''192.0.2.11'']))
     (Inl (InvalidCredsError ''API Key has insufficient rights''))
   = Inr [example_node (JStr ''1'') ''web'' ''192.0.2.10'' JNull,
          example_node (JStr ''2'') ''db'' ''192.0.2.11'' JNull] \<and>
   extra (example_node (JStr ''1'') ''web'' ''192.0.2.10'' JNull) ''password'' = None \<and>
   extra (example_node (JStr ''2'') ''db'' ''192.0.2.11'' JNull) ''password'' = None"
  using list_nodes_password_fetch_denied
    [of init_id_examples "list_envelope [example_server (JInt 1) ''web'' ''192.0.2.10'',
                        example_server (JInt 2) ''db'' ''192.0.2.11'']"
        "''API Key has insufficient rights''"
        "[example_node (JStr ''1'') ''web'' ''192.0.2.10'' JNull,
          example_node (JStr ''2'') ''db'' ''192.0.2.11'' JNull]"]
  by (simp add: list_envelope_def example_server_node get_id_def example_server_id
      init_id_examples_values)

lemma hash_key_eq_iff:
  "hash_key k = Inr hk \<Longrightarrow> hash_key i = Inr h \<Longrightarrow> (hk = h) = py_eq k i"
  by (cases k; cases i) auto

lemma store_password_Inr:
  "store_password m p = Inr m' \<Longrightarrow>
     \<exists>k v h. password_entry p = Some (k, v) \<and> hash_key k = Inr h \<and> m' = m(h \<mapsto> v)"
  by (auto simp: store_password_def password_entry_def and_then_Inr_iff)

lemma store_password_KeyError:
  "store_password m p = Inl e \<Longrightarrow> is_KeyError e \<Longrightarrow> password_entry p = None"
  by (auto simp: store_password_def password_entry_def and_then_Inl_iff
      dest: hash_key_error split: sum.splits)

lemma store_password_error:
  "store_password m p = Inl e \<Longrightarrow> \<not> is_InvalidCredsError e"
  by (auto simp: store_password_def and_then_Inl_iff dest: hash_key_error getitem_key_error)

lemma correlates_imp_entry: "correlates i p \<Longrightarrow> \<exists>k v. password_entry p = Some (k, v) \<and> py_eq k i"
  by (auto simp: correlates_def split: option.splits)

lemma correlated_password_Nil: "correlated_password [] i = None"
  by (simp add: correlated_password_def)

lemma correlated_password_Cons:
  "correlated_password (p # rest) i =
     (case correlated_password rest i of
        Some v \<Rightarrow> Some v
      | None \<Rightarrow> (if correlates i p then map_option snd (password_entry p) else None))"
proof (cases "filter (correlates i) rest")
  case Nil
  then show ?thesis by (simp add: correlated_password_def)
next
  case (Cons q qs)
  then have "last (q # qs) \<in> set (filter (correlates i) rest)"
    by (metis last_in_set list.distinct(1))
  then have "correlates i (last (q # qs))" by simp
  then obtain k v where "password_entry (last (q # qs)) = Some (k, v)"
    by (blast dest: correlates_imp_entry)
  with Cons show ?thesis by (simp add: correlated_password_def)
qed

lemma passwords_loop_correlated:
  "passwords_loop m records = (m', None) \<Longrightarrow> hash_key i = Inr h \<Longrightarrow>
     m' h = (case correlated_password records i of Some v \<Rightarrow> Some v | None \<Rightarrow> m h)"
proof (induction records arbitrary: m)
  case Nil
  then show ?case by (simp add: correlated_password_Nil)
next
  case (Cons p rest)
  show ?case
  proof (cases "store_password m p")
    case (Inl e)
    with Cons.prems(1) have key: "is_KeyError e" and rest: "passwords_loop m rest = (m', None)"
      by (auto simp: try_except_def split: if_splits)
    from store_password_KeyError [OF Inl key] have "\<not> correlates i p"
      by (simp add: correlates_def)
    with Cons.IH [OF rest Cons.prems(2)] show ?thesis
      by (simp add: correlated_password_Cons split: option.split)
  next
    case (Inr m1)
    with Cons.prems(1) have rest: "passwords_loop m1 rest = (m', None)"
      by (simp add: try_except_def)
    from store_password_Inr [OF Inr] obtain k v hk where
      entry: "password_entry p = Some (k, v)" and hk: "hash_key k = Inr hk"
      and m1: "m1 = m(hk \<mapsto> v)" by blast
    from hash_key_eq_iff [OF hk Cons.prems(2)] entry have "correlates i p = (hk = h)"
      by (simp add: correlates_def)
    with Cons.IH [OF rest Cons.prems(2)] entry m1 show ?thesis
      by (simp add: correlated_password_Cons split: option.split)
  qed
qed

lemma passwords_loop_error:
  "passwords_loop m records = (m', Some e) \<Longrightarrow> \<not> is_InvalidCredsError e"
proof (induction records arbitrary: m)
  case Nil
  then show ?case by simp
next
  case (Cons p rest)
  show ?case
  proof (cases "try_except (store_password m p) is_KeyError (Inr m)")
    case (Inl e')
    with Cons.prems have "e' = e" by simp
    moreover from Inl have "store_password m p = Inl e'"
      by (auto simp: try_except_def split: sum.splits if_splits)
    ultimately show ?thesis by (auto dest: store_password_error)
  next
    case (Inr m1)
    with Cons.prems have "passwords_loop m1 rest = (m', Some e)" by simp
    then show ?thesis by (rule Cons.IH)
  qed
qed

lemma list_nodes_Inr:
  assumes "list_nodes init_id (Inr res) (Inr object) = Inr ns"
  shows "\<exists>records m. and_then (getitem_key object ''list'') py_iter = Inr records \<and>
     passwords_loop Map.empty records = (m, None) \<and> nodes_of init_id res m = Inr ns"
proof (cases "and_then (getitem_key object ''list'') py_iter")
  case (Inl e)
  then have "\<not> is_InvalidCredsError e"
    by (auto simp: and_then_Inl_iff dest: getitem_key_error py_iter_error)
  with Inl assms show ?thesis
    by (simp add: list_nodes_def collect_passwords_def)
next
  case (Inr records)
  obtain m r where loop: "passwords_loop Map.empty records = (m, r)"
    by (cases "passwords_loop Map.empty records")
  show ?thesis
  proof (cases r)
    case None
    with Inr loop assms show ?thesis
      by (simp add: list_nodes_def collect_passwords_def)
  next
    case (Some e)
    with loop have "\<not> is_InvalidCredsError e" by (auto dest: passwords_loop_error)
    with Inr loop Some assms show ?thesis
      by (simp add: list_nodes_def collect_passwords_def)
  qed
qed

lemma example_password_entry:
  "password_entry (example_password i pw) = Some (i, JStr pw)"
  by (simp add: password_entry_def example_password_def)

lemma example_node_empty_password:
  "example_node i nm ip (JStr []) = example_node i nm ip JNull"
  by (simp add: example_node_def)

lemma list_nodes_examples:
  "list_nodes init_id_examples
     (Inr (list_envelope [example_server (JInt 1) ''web'' ''192.0.2.10'']))
     (Inr (list_envelope [example_password (JInt 1) []]))
   = Inr [example_node (JStr ''1'') ''web'' ''192.0.2.10'' JNull]"
  "list_nodes init_id_examples
     (Inr (list_envelope [example_server (JInt 1) ''web'' ''192.0.2.10'']))
     (Inr (list_envelope [JObj [(''server'', JObj [(''id'', JInt 1)])]]))
   = Inr [example_node (JStr ''1'') ''web'' ''192.0.2.10'' JNull]"
  "list_nodes init_id_examples
     (Inr (list_envelope [example_server (JInt 1) ''web'' ''192.0.2.10'',
                          example_server (JInt 2) ''db'' ''192.0.2.11'']))
     (Inr (list_envelope [example_password (JInt 2) ''s3cret'']))
   = Inr [example_node (JStr ''1'') ''web'' ''192.0.2.10'' JNull,
          example_node (JStr ''2'') ''db'' ''192.0.2.11'' (JStr ''s3cret'')]"
  by (simp_all add: list_nodes_def collect_passwords_def list_envelope_def try_except_def
      store_password_def example_password_def nodes_of_def example_server_id
      example_server_node example_node_empty_password init_id_examples_values)

text \<open>
  C7, as stated, fails: a password record whose server identifier equals the identifier
  of the node's record does not always give the node a password. A record with an empty
  password (\<^verbatim>\<open>if password:\<close> is false for it) and a record without a \<^verbatim>\<open>password\<close> field
  (skipped on \<open>KeyError\<close>) both leave the password of the node built from the server
  record with identifier 1 unset.
\<close>

theorem list_nodes_passwords_counterexample:
  "list_nodes init_id_examples
     (Inr (list_envelope [example_server (JInt 1) ''web'' ''192.0.2.10'']))
     (Inr (list_envelope [example_password (JInt 1) []]))
   = Inr [example_node (JStr ''1'') ''web'' ''192.0.2.10'' JNull] \<and>
   list_nodes init_id_examples
     (Inr (list_envelope [example_server (JInt 1) ''web'' ''192.0.2.10'']))
     (Inr (list_envelope [JObj [(''server'', JObj [(''id'', JInt 1)])]]))
   = Inr [example_node (JStr ''1'') ''web'' ''192.0.2.10'' JNull] \<and>
   get_id (example_server (JInt 1) ''web'' ''192.0.2.10'') = Inr (JInt 1) \<and>
   extra (example_node (JStr ''1'') ''web'' ''192.0.2.10'' JNull) ''password'' = None \<and>
   and_then (getitem_key (example_password (JInt 1) []) ''server'') (\<lambda>server.
     getitem_key server ''id'') = Inr (JInt 1) \<and>
   and_then (getitem_key (JObj [(''server'', JObj [(''id'', JInt 1)])]) ''server'') (\<lambda>server.
     getitem_key server ''id'') = Inr (JInt 1)"
  by (intro conjI list_nodes_examples)
    (simp_all add: example_node_fields example_password_def get_id_def example_server_id)

text \<open>
  C7, amended. Whenever \<open>list_nodes\<close> returns, every node is built from its server record
  (its identifier is what the constructor stores for the record's identifier), and a
  password \<open>v\<close> is attached to it exactly when \<open>v\<close> is the password of the last password
  record that has both a \<^verbatim>\<open>password\<close> field and a server identifier equal to the
  identifier of the node's record, and \<open>v\<close> is non-empty (truthy). A node whose record
  identifier no password record correlates with is returned with its password unset.
\<close>

theorem list_nodes_passwords:
  assumes "list_nodes init_id (Inr res) (Inr object) = Inr ns"
  shows "\<exists>els records.
     and_then (getitem_key res ''list'') py_iter = Inr els \<and>
     and_then (getitem_key object ''list'') py_iter = Inr records \<and>
     list_all2 (\<lambda>el n. \<exists>i.
         get_id el = Inr i \<and> node_id n = init_id i \<and>
         (\<forall>v. (extra n ''password'' = Some v) =
              (correlated_password records i = Some v \<and> truthy v)) \<and>
         ((\<forall>p \<in> set records. \<not> correlates i p) \<longrightarrow> extra n ''password'' = None))
       els ns"
proof -
  from list_nodes_Inr [OF assms] obtain records m where
    records: "and_then (getitem_key object ''list'') py_iter = Inr records"
    and loop: "passwords_loop Map.empty records = (m, None)"
    and nodes: "nodes_of init_id res m = Inr ns" by blast
  from nodes obtain els where
    els: "and_then (getitem_key res ''list'') py_iter = Inr els"
    and mapped: "list_all2 (\<lambda>el n. \<exists>h. and_then (get_id el) hash_key = Inr h \<and>
            to_node init_id el (case m h of Some v \<Rightarrow> v | None \<Rightarrow> JNull) = Inr n) els ns"
    by (auto simp: nodes_of_Inr_iff)
  have "\<exists>i. get_id el = Inr i \<and> node_id n = init_id i \<and>
         (\<forall>v. (extra n ''password'' = Some v) =
              (correlated_password records i = Some v \<and> truthy v)) \<and>
         ((\<forall>p \<in> set records. \<not> correlates i p) \<longrightarrow> extra n ''password'' = None)"
    if h: "and_then (get_id el) hash_key = Inr h"
      and n: "to_node init_id el (case m h of Some v \<Rightarrow> v | None \<Rightarrow> JNull) = Inr n" for el n h
  proof -
    from to_node_Inr(1) [OF n] obtain i where
      i: "get_id el = Inr i" and stored: "node_id n = init_id i" by blast
    from i h have hash: "hash_key i = Inr h" by simp
    from passwords_loop_correlated [OF loop hash]
    have m: "m h = correlated_password records i"
      by (simp split: option.split)
    have none: "correlated_password records i = None"
      if "\<forall>p \<in> set records. \<not> correlates i p"
    proof -
      from that have "filter (correlates i) records = []"
        by (simp add: filter_empty_conv)
      then show ?thesis by (simp add: correlated_password_def)
    qed
    from to_node_Inr(3) [OF n] m none
    have "(\<forall>v. (extra n ''password'' = Some v) =
              (correlated_password records i = Some v \<and> truthy v)) \<and>
         ((\<forall>p \<in> set records. \<not> correlates i p) \<longrightarrow> extra n ''password'' = None)"
      by (auto split: option.splits if_splits)
    with i stored show ?thesis by blast
  qed
  with mapped have "list_all2 (\<lambda>el n. \<exists>i.
         get_id el = Inr i \<and> node_id n = init_id i \<and>
         (\<forall>v. (extra n ''password'' = Some v) =
              (correlated_password records i = Some v \<and> truthy v)) \<and>
         ((\<forall>p \<in> set records. \<not> correlates i p) \<longrightarrow> extra n ''password'' = None))
       els ns"
    by (auto elim!: list_all2_mono)
  with els records show ?thesis by blast
qed

theorem list_nodes_passwords_witness:
  "list_nodes init_id_examples
     (Inr (list_envelope [example_server (JInt 1) ''web'' ''192.0.2.10'',
                          example_server (JInt 2) ''db'' ''192.0.2.11'']))
     (Inr (list_envelope [example_password (JInt 2) ''s3cret'']))
   = Inr [example_node (JStr ''1'') ''web'' ''192.0.2.10'' JNull,
          example_node (JStr ''2'') ''db'' ''192.0.2.11'' (JStr ''s3cret'')] \<and>
   extra (example_node (JStr ''1'') ''web'' ''192.0.2.10'' JNull) ''password'' = None \<and>
   extra (example_node (JStr ''2'') ''db'' ''192.0.2.11'' (JStr ''s3cret'')) ''password''
     = Some (JStr ''s3cret'') \<and>
   correlated_password [example_password (JInt 2) ''s3cret''] (JInt 1) = None \<and>
   correlated_password [example_password (JInt 2) ''s3cret''] (JInt 2) = Some (JStr ''s3cret'')"
proof -
  note run = list_nodes_examples(3)
  from list_nodes_passwords [OF run] obtain els records where
    els: "and_then (getitem_key (list_envelope [example_server (JInt 1) ''web'' ''192.0.2.10'',
                          example_server (JInt 2) ''db'' ''192.0.2.11'']) ''list'') py_iter = Inr els"
    and records: "and_then (getitem_key (list_envelope [example_password (JInt 2) ''s3cret''])
        ''list'') py_iter = Inr records"
    and corr: "list_all2 (\<lambda>el n. \<exists>i.
         get_id el = Inr i \<and> node_id n = init_id_examples i \<and>
         (\<forall>v. (extra n ''password'' = Some v) =
              (correlated_password records i = Some v \<and> truthy v)) \<and>
         ((\<forall>p \<in> set records. \<not> correlates i p) \<longrightarrow> extra n ''password'' = None))
       els [example_node (JStr ''1'') ''web'' ''192.0.2.10'' JNull,
          example_node (JStr ''2'') ''db'' ''192.0.2.11'' (JStr ''s3cret'')]"
    by blast
  from records have records: "records = [example_password (JInt 2) ''s3cret'']"
    by (simp add: list_envelope_def)
  from els have els: "els = [example_server (JInt 1) ''web'' ''192.0.2.10'',
                          example_server (JInt 2) ''db'' ''192.0.2.11'']"
    by (simp add: list_envelope_def)
  from corr have second: "\<forall>v. (extra (example_node (JStr ''2'') ''db'' ''192.0.2.11'' (JStr ''s3cret''))
         ''password'' = Some v) =
      (correlated_password records (JInt 2) = Some v \<and> truthy v)"
    unfolding els by (auto simp: get_id_def example_server_id)
  from spec [OF this, of "JStr ''s3cret''"]
  have "correlated_password records (JInt 2) = Some (JStr ''s3cret'')"
    by (simp add: example_node_fields)
  moreover have "correlated_password records (JInt 1) = None"
    by (simp add: records correlated_password_def correlates_def example_password_entry)
  ultimately show ?thesis
    using run by (simp add: records example_node_fields)
qed

subsection \<open>Creating a node\<close>

lemma list_nodes_public_ip:
  assumes "list_nodes init_id server_list password_list = Inr ns" and "i \<in> set ns"
  shows "\<exists>a. public_ip i = [a]"
proof -
  from assms(1) obtain res m where "nodes_of init_id res m = Inr ns"
    by (cases server_list; cases "collect_passwords password_list")
      (auto simp: list_nodes_def split: option.splits if_splits)
  then obtain els where "list_all2 (\<lambda>el n. \<exists>h. and_then (get_id el) hash_key = Inr h \<and>
            to_node init_id el (case m h of Some v \<Rightarrow> v | None \<Rightarrow> JNull) = Inr n) els ns"
    by (auto simp: nodes_of_Inr_iff)
  with assms(2) obtain el pw where "to_node init_id el pw = Inr i"
    by (blast dest: list_all2_right)
  from to_node_Inr(2) [OF this] show ?thesis by blast
qed

lemma ex_create_node_nowait_public_ip:
  assumes "ex_create_node_nowait init_id kw ip_list added = Inr node"
  shows "\<exists>b. public_ip node = [b]"
proof -
  from assms obtain el where "to_node init_id el JNull = Inr node"
    by (auto simp: ex_create_node_nowait_def and_then_Inr_iff split: option.splits)
  from to_node_Inr(2) [OF this] show ?thesis by blast
qed

lemma scan_nodes_find:
  assumes "public_ip node = [b]" and "\<forall>i \<in> set ns. \<exists>a. public_ip i = [a]"
  shows "scan_nodes node ns = Inr (find (matches node) ns)"
  using assms(2)
proof (induction ns)
  case Nil
  show ?case by simp
next
  case (Cons i rest)
  then obtain a where "public_ip i = [a]" by auto
  with Cons assms(1) show ?case
    by (simp add: first_public_ip_def matches_def)
qed

lemma find_None_iff_no_match: "(find P xs = None) = (\<forall>x \<in> set xs. \<not> P x)"
  by (induction xs) auto

lemma wait_for_id_poll:
  assumes "node_id node = JNull" and "waittime < timeout" and "public_ip node = [b]"
    and "list_nodes init_id (fst (polls n)) (snd (polls n)) = Inr ns"
  shows "wait_for_id init_id polls node waittime n =
     (case find (matches node) ns of
        Some i \<Rightarrow> (Inr i, Suc n)
      | None \<Rightarrow> wait_for_id init_id polls node (waittime + interval) (Suc n))"
proof -
  from assms(4) have "\<forall>i \<in> set ns. \<exists>a. public_ip i = [a]"
    by (blast dest: list_nodes_public_ip)
  with assms(3) have "scan_nodes node ns = Inr (find (matches node) ns)"
    by (rule scan_nodes_find)
  with assms(1,2,4) show ?thesis
    by (subst wait_for_id.simps) (simp split: option.split)
qed

lemma wait_for_id_found:
  assumes "node_id node = JNull" and "public_ip node = [b]"
    and "waittime + k * interval < timeout"
    and "\<forall>j<k. \<exists>ns. list_nodes init_id (fst (polls (n + j))) (snd (polls (n + j))) = Inr ns \<and>
            (\<forall>i \<in> set ns. \<not> matches node i)"
    and "list_nodes init_id (fst (polls (n + k))) (snd (polls (n + k))) = Inr ns"
    and "find (matches node) ns = Some i"
  shows "wait_for_id init_id polls node waittime n = (Inr i, Suc (n + k))"
  using assms(3-6)
proof (induction k arbitrary: waittime n)
  case 0
  then have "waittime < timeout" by simp
  from wait_for_id_poll [where polls = polls and n = n and ns = ns, OF assms(1) this assms(2)] 0
  show ?case by simp
next
  case (Suc k)
  from Suc.prems(1) have now: "waittime < timeout"
    and later: "(waittime + interval) + k * interval < timeout"
    by simp_all
  from Suc.prems(2) obtain ns0 where
    ns0: "list_nodes init_id (fst (polls n)) (snd (polls n)) = Inr ns0"
    and none: "\<forall>i \<in> set ns0. \<not> matches node i"
    by force
  from none have "find (matches node) ns0 = None"
    by (simp add: find_None_iff_no_match)
  with wait_for_id_poll [where polls = polls and n = n, OF assms(1) now assms(2) ns0]
  have step: "wait_for_id init_id polls node waittime n =
      wait_for_id init_id polls node (waittime + interval) (Suc n)"
    by simp
  have "\<forall>j<k. \<exists>ns. list_nodes init_id (fst (polls (Suc n + j))) (snd (polls (Suc n + j))) = Inr ns \<and>
            (\<forall>i \<in> set ns. \<not> matches node i)"
  proof (intro allI impI)
    fix j
    assume "j < k"
    then have "Suc j < Suc k" by simp
    with Suc.prems(2) show "\<exists>ns. list_nodes init_id (fst (polls (Suc n + j))) (snd (polls (Suc n + j))) = Inr ns \<and>
            (\<forall>i \<in> set ns. \<not> matches node i)"
      by (metis add_Suc_right add_Suc)
  qed
  moreover from Suc.prems(3)
  have "list_nodes init_id (fst (polls (Suc n + k))) (snd (polls (Suc n + k))) = Inr ns"
    by simp
  ultimately have "wait_for_id init_id polls node (waittime + interval) (Suc n) = (Inr i, Suc (Suc n + k))"
    using later Suc.prems(4) by (intro Suc.IH)
  with step show ?case by simp
qed

lemma wait_for_id_timeout:
  assumes "node_id node = JNull" and "public_ip node = [b]"
    and "waittime + k * interval = timeout"
    and "\<forall>j<k. \<exists>ns. list_nodes init_id (fst (polls (n + j))) (snd (polls (n + j))) = Inr ns \<and>
            (\<forall>i \<in> set ns. \<not> matches node i)"
  shows "wait_for_id init_id polls node waittime n = (Inr node, n + k)"
  using assms(3,4)
proof (induction k arbitrary: waittime n)
  case 0
  then show ?case
    by (subst wait_for_id.simps) (simp add: builtin_id_is_None_def)
next
  case (Suc k)
  from Suc.prems(1) have now: "waittime < timeout"
    and later: "(waittime + interval) + k * interval = timeout"
    by (simp_all add: interval_def)
  from Suc.prems(2) obtain ns0 where
    ns0: "list_nodes init_id (fst (polls n)) (snd (polls n)) = Inr ns0"
    and none: "\<forall>i \<in> set ns0. \<not> matches node i"
    by force
  from none have "find (matches node) ns0 = None"
    by (simp add: find_None_iff_no_match)
  with wait_for_id_poll [where polls = polls and n = n, OF assms(1) now assms(2) ns0]
  have step: "wait_for_id init_id polls node waittime n =
      wait_for_id init_id polls node (waittime + interval) (Suc n)"
    by simp
  have "\<forall>j<k. \<exists>ns. list_nodes init_id (fst (polls (Suc n + j))) (snd (polls (Suc n + j))) = Inr ns \<and>
            (\<forall>i \<in> set ns. \<not> matches node i)"
  proof (intro allI impI)
    fix j
    assume "j < k"
    then have "Suc j < Suc k" by simp
    with Suc.prems(2) show "\<exists>ns. list_nodes init_id (fst (polls (Suc n + j))) (snd (polls (Suc n + j))) = Inr ns \<and>
            (\<forall>i \<in> set ns. \<not> matches node i)"
      by (metis add_Suc_right add_Suc)
  qed
  with later have "wait_for_id init_id polls node (waittime + interval) (Suc n) = (Inr node, Suc n + k)"
    by (intro Suc.IH)
  with step show ?case by simp
qed

lemma example_created:
  "ex_create_node_nowait init_id_examples example_kwargs
     (Inr (list_envelope [JObj [(''ip'', JStr ''192.0.2.10'')]]))
     (Inr (list_envelope [example_server JNull ''web'' ''192.0.2.10'']))
   = Inr (example_node JNull ''web'' ''192.0.2.10'' JNull)"
  by (simp add: ex_create_node_nowait_def example_kwargs_def get_first_ip_def list_envelope_def
      example_server_node init_id_examples_values)

lemma list_nodes_polls:
  "list_nodes init_id_examples (fst (polls_resolving 0)) (snd (polls_resolving 0))
     = Inr [example_node JNull ''web'' ''192.0.2.10'' JNull]"
  "list_nodes init_id_examples (fst (polls_resolving (Suc n))) (snd (polls_resolving (Suc n)))
     = Inr [example_node (JStr ''7'') ''db'' ''192.0.2.11'' JNull,
            example_node (JStr ''42'') ''web'' ''192.0.2.10'' (JStr ''s3cret'')]"
  "list_nodes init_id_examples (fst (polls_pending n)) (snd (polls_pending n))
     = Inr [example_node (JStr ''7'') ''db'' ''192.0.2.11'' JNull,
            example_node JNull ''web'' ''192.0.2.10'' JNull]"
  by (simp_all add: polls_resolving_def polls_pending_def list_nodes_def collect_passwords_def
      list_envelope_def try_except_def store_password_def example_password_def nodes_of_def
      example_server_id example_server_node init_id_examples_values)

lemma matches_example:
  "matches (example_node i nm ip pw) (example_node i' nm' ip' pw') = (ip' = ip \<and> i' \<noteq> JNull)"
  by (auto simp: matches_def example_node_fields)

text \<open>
  With the constructor of the examples a record identifier 0 is stored as \<^verbatim>\<open>None\<close>, so a
  record that carries it is no match: the loop polls ten times and the node without
  identifier comes back.
\<close>

lemma create_node_zero_id:
  "create_node init_id_examples example_kwargs
     (Inr (list_envelope [JObj [(''ip'', JStr ''192.0.2.10'')]]))
     (Inr (list_envelope [example_server JNull ''web'' ''192.0.2.10'']))
     polls_zero_id
   = (Inr (example_node JNull ''web'' ''192.0.2.10'' JNull), 10)"
proof -
  have listed: "list_nodes init_id_examples (fst (polls_zero_id n)) (snd (polls_zero_id n))
      = Inr [example_node JNull ''web'' ''192.0.2.10'' JNull]" for n
    by (simp add: polls_zero_id_def list_nodes_def collect_passwords_def list_envelope_def
        nodes_of_def example_server_id example_server_node init_id_examples_values)
  have "wait_for_id init_id_examples polls_zero_id
      (example_node JNull ''web'' ''192.0.2.10'' JNull) 0 0
      = (Inr (example_node JNull ''web'' ''192.0.2.10'' JNull), 0 + 10)"
  proof (rule wait_for_id_timeout)
    show "node_id (example_node JNull ''web'' ''192.0.2.10'' JNull) = JNull"
      by (simp add: example_node_fields)
    show "public_ip (example_node JNull ''web'' ''192.0.2.10'' JNull) = [JStr ''192.0.2.10'']"
      by (simp add: example_node_fields)
    show "0 + 10 * interval = timeout"
      by (simp add: interval_def timeout_def)
    show "\<forall>j<10. \<exists>ns.
        list_nodes init_id_examples (fst (polls_zero_id (0 + j))) (snd (polls_zero_id (0 + j)))
          = Inr ns \<and>
        (\<forall>i \<in> set ns. \<not> matches (example_node JNull ''web'' ''192.0.2.10'' JNull) i)"
      by (simp add: listed matches_example)
  qed
  then show ?thesis
    by (simp add: create_node_def example_created)
qed

text \<open>
  C2. Take an execution of \<open>create_node\<close> that polls: the provisioning call returned a
  node without identifier, the polls before poll \<open>k\<close> returned lists without a match, and
  poll \<open>k\<close>, made before the deadline (\<open>k * interval < timeout\<close>, that is \<open>k < 10\<close>), returns a
  list containing a node whose first public address equals the created node's and
  whose identifier is present (\<^verbatim>\<open>i.id is not None\<close>, read from the node as the library's
  constructor built it). Then \<open>create_node\<close> returns the first such node of that list, a
  node mapped by \<open>list_nodes\<close> from the fresher record, and has called \<open>list_nodes\<close>
  exactly \<open>k + 1\<close> times: it polls no further. This holds whatever the constructor
  stores as identifier.
\<close>

theorem create_node_returns_first_match:
  assumes "ex_create_node_nowait init_id kw ip_list added = Inr node"
    and "node_id node = JNull"
    and "k * interval < timeout"
    and "\<forall>j<k. \<exists>ns. list_nodes init_id (fst (polls j)) (snd (polls j)) = Inr ns \<and>
            (\<forall>i \<in> set ns. \<not> matches node i)"
    and "list_nodes init_id (fst (polls k)) (snd (polls k)) = Inr ns"
    and "\<exists>i \<in> set ns. matches node i"
  shows "\<exists>i. find (matches node) ns = Some i \<and> matches node i \<and>
     create_node init_id kw ip_list added polls = (Inr i, Suc k)"
proof -
  from assms(6) obtain i where i: "find (matches node) ns = Some i"
    by (cases "find (matches node) ns") (auto simp: find_None_iff_no_match)
  then have "matches node i"
    by (auto simp: find_Some_iff)
  moreover from ex_create_node_nowait_public_ip [OF assms(1)]
  obtain b where "public_ip node = [b]" ..
  with assms(2-5) i have "wait_for_id init_id polls node 0 0 = (Inr i, Suc (0 + k))"
    by (intro wait_for_id_found) simp_all
  with assms(1) have "create_node init_id kw ip_list added polls = (Inr i, Suc k)"
    by (simp add: create_node_def)
  ultimately show ?thesis using i by blast
qed

theorem create_node_returns_first_match_witness:
  "create_node init_id_examples example_kwargs
     (Inr (list_envelope [JObj [(''ip'', JStr ''192.0.2.10'')]]))
     (Inr (list_envelope [example_server JNull ''web'' ''192.0.2.10'']))
     polls_resolving
   = (Inr (example_node (JStr ''42'') ''web'' ''192.0.2.10'' (JStr ''s3cret'')), 2)"
proof -
  have "\<exists>i. find (matches (example_node JNull ''web'' ''192.0.2.10'' JNull))
           [example_node (JStr ''7'') ''db'' ''192.0.2.11'' JNull,
            example_node (JStr ''42'') ''web'' ''192.0.2.10'' (JStr ''s3cret'')] = Some i \<and>
      matches (example_node JNull ''web'' ''192.0.2.10'' JNull) i \<and>
      create_node init_id_examples example_kwargs
        (Inr (list_envelope [JObj [(''ip'', JStr ''192.0.2.10'')]]))
        (Inr (list_envelope [example_server JNull ''web'' ''192.0.2.10'']))
        polls_resolving = (Inr i, Suc 1)"
  proof (rule create_node_returns_first_match [OF example_created])
    show "node_id (example_node JNull ''web'' ''192.0.2.10'' JNull) = JNull"
      by (simp add: example_node_fields)
    show "1 * interval < timeout"
      by (simp add: interval_def timeout_def)
    show "\<forall>j<1. \<exists>ns. list_nodes init_id_examples (fst (polls_resolving j)) (snd (polls_resolving j)) = Inr ns \<and>
        (\<forall>i \<in> set ns. \<not> matches (example_node JNull ''web'' ''192.0.2.10'' JNull) i)"
      by (simp add: list_nodes_polls matches_example)
    show "list_nodes init_id_examples (fst (polls_resolving 1)) (snd (polls_resolving 1))
       = Inr [example_node (JStr ''7'') ''db'' ''192.0.2.11'' JNull,
              example_node (JStr ''42'') ''web'' ''192.0.2.10'' (JStr ''s3cret'')]"
      using list_nodes_polls(2) [of 0] by simp
    show "\<exists>i \<in> set [example_node (JStr ''7'') ''db'' ''192.0.2.11'' JNull,
              example_node (JStr ''42'') ''web'' ''192.0.2.10'' (JStr ''s3cret'')].
        matches (example_node JNull ''web'' ''192.0.2.10'' JNull) i"
      by (simp add: matches_example)
  qed
  then show ?thesis
    by (auto simp: matches_example)
qed

text \<open>
  C1 describes what the code visibly attempts and misses. When ten polls in a row
  yield no matching identified record the loop ends at the deadline, the test
  \<^verbatim>\<open>if id is None\<close> looks at the built-in \<^verbatim>\<open>id\<close> instead of \<^verbatim>\<open>node.id\<close>, nothing is
  raised, and \<open>create_node\<close> returns the node of the provisioning call, whose identifier
  is absent.
\<close>

theorem create_node_timeout_returns_unidentified:
  "create_node init_id_examples example_kwargs
     (Inr (list_envelope [JObj [(''ip'', JStr ''192.0.2.10'')]]))
     (Inr (list_envelope [example_server JNull ''web'' ''192.0.2.10'']))
     polls_pending
   = (Inr (example_node JNull ''web'' ''192.0.2.10'' JNull), 10) \<and>
   node_id (example_node JNull ''web'' ''192.0.2.10'' JNull) = JNull"
proof -
  have "wait_for_id init_id_examples polls_pending (example_node JNull ''web'' ''192.0.2.10'' JNull) 0 0
      = (Inr (example_node JNull ''web'' ''192.0.2.10'' JNull), 0 + 10)"
  proof (rule wait_for_id_timeout)
    show "node_id (example_node JNull ''web'' ''192.0.2.10'' JNull) = JNull"
      by (simp add: example_node_fields)
    show "public_ip (example_node JNull ''web'' ''192.0.2.10'' JNull) = [JStr ''192.0.2.10'']"
      by (simp add: example_node_fields)
    show "0 + 10 * interval = timeout"
      by (simp add: interval_def timeout_def)
    show "\<forall>j<10. \<exists>ns. list_nodes init_id_examples (fst (polls_pending (0 + j))) (snd (polls_pending (0 + j))) = Inr ns \<and>
        (\<forall>i \<in> set ns. \<not> matches (example_node JNull ''web'' ''192.0.2.10'' JNull) i)"
      by (simp add: list_nodes_polls matches_example)
  qed
  then show ?thesis
    by (simp add: create_node_def example_created example_node_fields)
qed

end
